theory Spec2Isabelle
  imports Complex_Main
begin

section \<open>JavaScript numbers\<close>

text \<open>
  The program computes with JavaScript numbers. The model keeps the three kinds of
  special value of such a number apart from the finite ones: \<open>NaN\<close>, the two
  infinities, and a finite value, which is a real number. The operations follow the
  ECMAScript rules for the special values and are the exact real operations on finite
  values: rounding and overflow of finite results are not part of the model, and the
  sign of a zero is not tracked (every zero is \<open>+0\<close>).
\<close>

datatype jsnum = NaN | PosInf | NegInf | Fin real

definition PI :: jsnum where
  "PI = Fin pi"

fun isNaN :: "jsnum \<Rightarrow> bool" where
  "isNaN NaN = True"
| "isNaN _ = False"

fun isFinite :: "jsnum \<Rightarrow> bool" where
  "isFinite (Fin _) = True"
| "isFinite _ = False"

fun js_neg :: "jsnum \<Rightarrow> jsnum" where
  "js_neg NaN = NaN"
| "js_neg PosInf = NegInf"
| "js_neg NegInf = PosInf"
| "js_neg (Fin a) = Fin (- a)"

fun js_add :: "jsnum \<Rightarrow> jsnum \<Rightarrow> jsnum" where
  "js_add NaN _ = NaN"
| "js_add _ NaN = NaN"
| "js_add PosInf NegInf = NaN"
| "js_add NegInf PosInf = NaN"
| "js_add PosInf _ = PosInf"
| "js_add _ PosInf = PosInf"
| "js_add NegInf _ = NegInf"
| "js_add _ NegInf = NegInf"
| "js_add (Fin a) (Fin b) = Fin (a + b)"

definition js_sub :: "jsnum \<Rightarrow> jsnum \<Rightarrow> jsnum" where
  "js_sub a b = js_add a (js_neg b)"

text \<open>The infinity with the sign of a product or quotient of two signs.\<close>

definition signed_inf :: "bool \<Rightarrow> jsnum" where
  "signed_inf positive = (if positive then PosInf else NegInf)"

fun js_mul :: "jsnum \<Rightarrow> jsnum \<Rightarrow> jsnum" where
  "js_mul NaN _ = NaN"
| "js_mul _ NaN = NaN"
| "js_mul (Fin a) (Fin b) = Fin (a * b)"
| "js_mul (Fin a) PosInf = (if a = 0 then NaN else signed_inf (0 < a))"
| "js_mul (Fin a) NegInf = (if a = 0 then NaN else signed_inf (a < 0))"
| "js_mul PosInf (Fin b) = (if b = 0 then NaN else signed_inf (0 < b))"
| "js_mul NegInf (Fin b) = (if b = 0 then NaN else signed_inf (b < 0))"
| "js_mul PosInf PosInf = PosInf"
| "js_mul PosInf NegInf = NegInf"
| "js_mul NegInf PosInf = NegInf"
| "js_mul NegInf NegInf = PosInf"

fun js_div :: "jsnum \<Rightarrow> jsnum \<Rightarrow> jsnum" where
  "js_div NaN _ = NaN"
| "js_div _ NaN = NaN"
| "js_div (Fin a) (Fin b) =
     (if b = 0 then (if a = 0 then NaN else signed_inf (0 < a)) else Fin (a / b))"
| "js_div (Fin a) _ = Fin 0"
| "js_div PosInf (Fin b) = signed_inf (0 \<le> b)"
| "js_div NegInf (Fin b) = signed_inf (b < 0)"
| "js_div _ _ = NaN"

text \<open>
  The comparisons \<open><\<close>, \<open>>\<close>, \<open>>=\<close> and \<open>===\<close>: all false when an operand is
  \<open>NaN\<close>.
\<close>

fun js_lt :: "jsnum \<Rightarrow> jsnum \<Rightarrow> bool" where
  "js_lt NaN _ = False"
| "js_lt _ NaN = False"
| "js_lt (Fin a) (Fin b) = (a < b)"
| "js_lt _ NegInf = False"
| "js_lt PosInf _ = False"
| "js_lt _ _ = True"

definition js_gt :: "jsnum \<Rightarrow> jsnum \<Rightarrow> bool" where
  "js_gt a b = js_lt b a"

definition js_eq :: "jsnum \<Rightarrow> jsnum \<Rightarrow> bool" where
  "js_eq a b = (\<not> isNaN a \<and> \<not> isNaN b \<and> a = b)"

definition js_ge :: "jsnum \<Rightarrow> jsnum \<Rightarrow> bool" where
  "js_ge a b = (js_lt b a \<or> js_eq a b)"

text \<open>
  The remainder \<open>%\<close> truncates the quotient towards zero, so the result has the sign of
  the dividend.
\<close>

definition trunc :: "real \<Rightarrow> int" where
  "trunc q = (if 0 \<le> q then \<lfloor>q\<rfloor> else \<lceil>q\<rceil>)"

definition fmod :: "real \<Rightarrow> real \<Rightarrow> real" where
  "fmod a b = a - b * of_int (trunc (a / b))"

fun js_rem :: "jsnum \<Rightarrow> jsnum \<Rightarrow> jsnum" where
  "js_rem NaN _ = NaN"
| "js_rem _ NaN = NaN"
| "js_rem PosInf _ = NaN"
| "js_rem NegInf _ = NaN"
| "js_rem (Fin a) (Fin b) = (if b = 0 then NaN else Fin (fmod a b))"
| "js_rem (Fin a) _ = Fin a"

text \<open>
  \<open>Math.cos\<close>, \<open>Math.sin\<close> and \<open>Math.tan\<close>. The tangent is the quotient of sine by
  cosine, so that at an exact pole it is an infinity. No floating-point angle reaches a
  pole: \<open>Math.tan(Math.PI / 2)\<close> is finite, about \<open>1.6e16\<close>, where the model's
  tangent of \<open>pi / 2\<close> is infinite. A power of that tangent that overflows to
  \<open>Infinity\<close> in double arithmetic is the one case where both give the same.
\<close>

fun js_cos :: "jsnum \<Rightarrow> jsnum" where
  "js_cos (Fin a) = Fin (cos a)"
| "js_cos _ = NaN"

fun js_sin :: "jsnum \<Rightarrow> jsnum" where
  "js_sin (Fin a) = Fin (sin a)"
| "js_sin _ = NaN"

definition js_tan :: "jsnum \<Rightarrow> jsnum" where
  "js_tan a = js_div (js_sin a) (js_cos a)"

text \<open>
  \<open>Math.pow\<close>, in the order of the cases of ECMAScript's \<open>Number::exponentiate\<close>: the
  exponent \<open>NaN\<close>, the exponent zero, the base \<open>NaN\<close>, an infinite base, a zero
  base, an infinite exponent, a negative base with a fractional exponent, and the
  finite power.
\<close>

definition is_integer :: "real \<Rightarrow> bool" where
  "is_integer b = (of_int \<lfloor>b\<rfloor> = b)"

definition odd_integer :: "real \<Rightarrow> bool" where
  "odd_integer b = (is_integer b \<and> odd \<lfloor>b\<rfloor>)"

fun js_pow :: "jsnum \<Rightarrow> jsnum \<Rightarrow> jsnum" where
  "js_pow _ NaN = NaN"
| "js_pow NaN (Fin b) = (if b = 0 then Fin 1 else NaN)"
| "js_pow NaN _ = NaN"
| "js_pow PosInf (Fin b) = (if b = 0 then Fin 1 else if 0 < b then PosInf else Fin 0)"
| "js_pow PosInf PosInf = PosInf"
| "js_pow PosInf NegInf = Fin 0"
| "js_pow NegInf (Fin b) =
     (if b = 0 then Fin 1
      else if 0 < b then (if odd_integer b then NegInf else PosInf)
      else Fin 0)"
| "js_pow NegInf PosInf = PosInf"
| "js_pow NegInf NegInf = Fin 0"
| "js_pow (Fin a) PosInf =
     (if a = 0 then Fin 0
      else if 1 < \<bar>a\<bar> then PosInf else if \<bar>a\<bar> = 1 then NaN else Fin 0)"
| "js_pow (Fin a) NegInf =
     (if a = 0 then PosInf
      else if 1 < \<bar>a\<bar> then Fin 0 else if \<bar>a\<bar> = 1 then NaN else PosInf)"
| "js_pow (Fin a) (Fin b) =
     (if b = 0 then Fin 1
      else if a = 0 then (if 0 < b then Fin 0 else PosInf)
      else if 0 < a then Fin (a powr b)
      else if is_integer b then Fin (if odd \<lfloor>b\<rfloor> then - (\<bar>a\<bar> powr b) else \<bar>a\<bar> powr b)
      else NaN)"

text \<open>A loop counter or the accuracy setting, an integer, as a number.\<close>

definition num :: "int \<Rightarrow> jsnum" where
  "num i = Fin (of_int i)"

section \<open>Points and path strings\<close>

text \<open>
  The class \<open>Point\<close> with its two public fields. A path string is kept as the sequence
  of the pieces its template literals are made of: literal text, and numbers, which
  JavaScript renders by \<open>Number.prototype.toString\<close>. \<open>render\<close> gives the string for
  a given rendering of numbers.
\<close>

datatype point = Point (px: jsnum) (py: jsnum)

datatype piece = Lit string | Num jsnum

type_synonym path = "piece list"

definition toString :: "point \<Rightarrow> path" where
  "toString p = [Num (px p), Lit '' '', Num (py p)]"

fun render :: "(jsnum \<Rightarrow> string) \<Rightarrow> path \<Rightarrow> string" where
  "render fmt [] = []"
| "render fmt (Lit s # ps) = s @ render fmt ps"
| "render fmt (Num a # ps) = fmt a @ render fmt ps"

text \<open>\<open>Array.prototype.join\<close> on rendered points.\<close>

fun join :: "string \<Rightarrow> path list \<Rightarrow> path" where
  "join sep [] = []"
| "join sep [p] = p"
| "join sep (p # ps) = p @ [Lit sep] @ join sep ps"

definition add :: "point \<Rightarrow> point \<Rightarrow> point" where
  "add p q = Point (js_add (px p) (px q)) (js_add (py p) (py q))"

definition subtract :: "point \<Rightarrow> point \<Rightarrow> point" where
  "subtract p q = Point (js_sub (px p) (px q)) (js_sub (py p) (py q))"

definition rotate_point :: "point \<Rightarrow> jsnum \<Rightarrow> point" where
  "rotate_point p angle = Point
     (js_sub (js_mul (px p) (js_cos angle)) (js_mul (py p) (js_sin angle)))
     (js_add (js_mul (px p) (js_sin angle)) (js_mul (py p) (js_cos angle)))"

section \<open>The accuracy setting\<close>

text \<open>
  The module variable \<open>accuracy\<close>, "the number of line segments to use for the squircle",
  is an integer. It is the state of the module: the setter replaces it, the getter reads
  it, and every generator below takes it as its first argument.
\<close>

definition initial_accuracy :: int where
  "initial_accuracy = 101"

definition setAccuracy :: "int \<Rightarrow> int \<Rightarrow> int" where
  "setAccuracy acc accuracy = acc"

definition getAccuracy :: "int \<Rightarrow> int" where
  "getAccuracy accuracy = accuracy"

section \<open>The isotropic evaluator\<close>

text \<open>
  \<open>squirc_cos\<close> reduces the angle by \<open>% (2 * Math.PI)\<close> and then calls itself on a
  reflected angle. The rank of a reduced angle counts the reflections still to come, and
  shows that the recursion ends.
\<close>

definition quadrant_rank :: "real \<Rightarrow> nat" where
  "quadrant_rank r =
     (if r < 0 then 2 * nat \<lceil>- r / pi\<rceil>
      else if r \<le> pi / 2 then 0
      else 2 * nat \<lceil>r / pi\<rceil> - 1)"

fun angle_rank :: "jsnum \<Rightarrow> nat" where
  "angle_rank (Fin r) = quadrant_rank r"
| "angle_rank _ = 0"

lemma fmod_small: "0 < b \<Longrightarrow> \<bar>a\<bar> < b \<Longrightarrow> fmod a b = a"
proof -
  assume b: "0 < b" and a: "\<bar>a\<bar> < b"
  have "a / b < 1" "- 1 < a / b" using a b by (simp_all add: field_simps)
  then have "trunc (a / b) = 0" unfolding trunc_def by (auto simp: floor_eq_iff ceiling_eq_iff)
  then show ?thesis by (simp add: fmod_def)
qed

lemma fmod_bound: "0 < b \<Longrightarrow> \<bar>fmod a b\<bar> < b"
proof -
  assume b: "0 < b"
  define q where "q = a / b"
  have a: "a = b * q" using b by (simp add: q_def)
  have "\<bar>q - of_int (trunc q)\<bar> < 1" unfolding trunc_def by (auto; linarith)
  then have "\<bar>b * (q - of_int (trunc q))\<bar> < b * 1"
    unfolding abs_mult using b by (simp)
  then show ?thesis unfolding fmod_def q_def[symmetric] a by (simp add: algebra_simps)
qed

lemma quadrant_rank_neg: "r < 0 \<Longrightarrow> quadrant_rank (- r) < quadrant_rank r"
proof -
  assume r: "r < 0"
  have "r / pi < 0" using r pi_gt_zero by (rule divide_neg_pos)
  then have "0 < - r / pi" by simp
  then have k: "1 \<le> \<lceil>- r / pi\<rceil>" by linarith
  have "quadrant_rank r = 2 * nat \<lceil>- r / pi\<rceil>" using r by (simp add: quadrant_rank_def)
  moreover have "quadrant_rank (- r) \<le> 2 * nat \<lceil>- r / pi\<rceil> - 1"
    using r by (simp add: quadrant_rank_def)
  ultimately show ?thesis using k by linarith
qed

lemma quadrant_rank_reflect:
  assumes "pi / 2 < r"
  shows "quadrant_rank (pi - r) < quadrant_rank r"
proof -
  have rp: "0 < r" using assms pi_gt_zero by linarith
  have "0 < r / pi" using rp by simp
  then have c1: "1 \<le> \<lceil>r / pi\<rceil>" by linarith
  have "- (pi - r) / pi = r / pi - 1" by (simp add: field_simps)
  then have c2: "\<lceil>- (pi - r) / pi\<rceil> = \<lceil>r / pi\<rceil> - 1" by simp
  have rank_r: "quadrant_rank r = 2 * nat \<lceil>r / pi\<rceil> - 1"
    using rp assms by (simp add: quadrant_rank_def)
  show ?thesis
  proof (cases "pi - r < 0")
    case True
    then have "1 < r / pi" by simp
    then have k: "2 \<le> \<lceil>r / pi\<rceil>" by linarith
    have "quadrant_rank (pi - r) = 2 * nat (\<lceil>r / pi\<rceil> - 1)"
      using True c2 by (simp add: quadrant_rank_def)
    then show ?thesis using rank_r k by linarith
  next
    case False
    then have "quadrant_rank (pi - r) = 0" using assms by (simp add: quadrant_rank_def)
    then show ?thesis using rank_r c1 by linarith
  qed
qed

lemma js_rem_2pi_cases:
  "js_rem angle (js_mul (Fin 2) PI) = NaN \<or>
   (\<exists>r. js_rem angle (js_mul (Fin 2) PI) = Fin r \<and> \<bar>r\<bar> < 2 * pi)"
  by (cases angle) (simp_all add: PI_def fmod_bound)

lemma js_rem_2pi_small: "\<bar>r\<bar> < 2 * pi \<Longrightarrow> js_rem (Fin r) (js_mul (Fin 2) PI) = Fin r"
  by (simp add: PI_def fmod_small)

function squirc_cos :: "jsnum \<Rightarrow> jsnum \<Rightarrow> jsnum" where
  "squirc_cos angle exponent =
     (let angle = js_rem angle (js_mul (Fin 2) PI) in
      if js_lt angle (Fin 0) then squirc_cos (js_neg angle) exponent
      else if js_gt angle (js_div PI (Fin 2))
      then js_neg (squirc_cos (js_sub PI angle) exponent)
      else js_div (Fin 1)
             (js_pow (js_add (Fin 1) (js_pow (js_tan angle) exponent))
                (js_div (Fin 1) exponent)))"
  by pat_completeness auto
termination
proof (relation "measure (\<lambda>(angle, exponent). angle_rank (js_rem angle (js_mul (Fin 2) PI)))",
    goal_cases)
  case 1
  show ?case by simp
next
  case (2 angle exponent a)
  from js_rem_2pi_cases[of angle] 2 obtain r
    where r: "js_rem angle (js_mul (Fin 2) PI) = Fin r" "\<bar>r\<bar> < 2 * pi" "r < 0"
    by auto
  have "js_rem (js_neg a) (js_mul (Fin 2) PI) = Fin (- r)"
    using r 2(1) js_rem_2pi_small[of "- r"] by simp
  then show ?case using r quadrant_rank_neg[of r] by simp
next
  case (3 angle exponent a)
  from js_rem_2pi_cases[of angle] 3 obtain r
    where r: "js_rem angle (js_mul (Fin 2) PI) = Fin r" "\<bar>r\<bar> < 2 * pi" "pi / 2 < r"
    by (auto simp: js_gt_def PI_def)
  have "\<bar>pi - r\<bar> < 2 * pi" using r by linarith
  then have "js_rem (js_sub PI a) (js_mul (Fin 2) PI) = Fin (pi - r)"
    using r 3(1) js_rem_2pi_small[of "pi - r"] by (simp add: js_sub_def PI_def)
  then show ?case using r quadrant_rank_reflect[of r] by simp
qed

declare squirc_cos.simps [simp del]

definition squirc_sin :: "jsnum \<Rightarrow> jsnum \<Rightarrow> jsnum" where
  "squirc_sin angle exponent = squirc_cos (js_sub (js_div PI (Fin 2)) angle) exponent"

text \<open>
  The loop \<open>for (let i = 1; i < accuracy; i++)\<close> runs its body for each value of the
  counter in turn; \<open>indices_up accuracy 1\<close> is the list of these values. The body
  computes a point \<open>p\<close> from \<open>i\<close> and appends it to the path string, so that the loop
  appends the points of the counter values, in order.
\<close>

function indices_up :: "int \<Rightarrow> int \<Rightarrow> int list" where
  "indices_up accuracy i =
     (if js_lt (num i) (num accuracy) then i # indices_up accuracy (i + 1) else [])"
  by pat_completeness auto
termination
  by (relation "measure (\<lambda>(accuracy, i). nat (accuracy - i))") (auto simp: num_def)

declare indices_up.simps [simp del]

text \<open>The angle of sample \<open>i\<close>, from \<open>origin\<close> and \<open>step\<close>.\<close>

definition sample_angle :: "int \<Rightarrow> bool \<Rightarrow> int \<Rightarrow> jsnum" where
  "sample_angle accuracy clockwise i =
     (let origin = js_div PI (Fin 2);
          step = js_div (js_mul (Fin 2) PI) (num accuracy)
      in if clockwise then js_sub origin (js_mul (num i) step)
         else js_add origin (js_mul (num i) step))"

definition simple_point ::
  "int \<Rightarrow> jsnum \<Rightarrow> point \<Rightarrow> point \<Rightarrow> jsnum \<Rightarrow> bool \<Rightarrow> int \<Rightarrow> point" where
  "simple_point accuracy exponent sz center rotation clockwise i =
     (let angle = sample_angle accuracy clockwise i;
          p = Point (js_mul (js_div (px sz) (Fin 2)) (squirc_cos angle exponent))
                    (js_mul (js_div (py sz) (Fin 2)) (js_neg (squirc_sin angle exponent)));
          p = rotate_point p rotation;
          p = add p center
      in p)"

definition squirc_simple ::
  "int \<Rightarrow> jsnum \<Rightarrow> point \<Rightarrow> point \<Rightarrow> jsnum \<Rightarrow> bool \<Rightarrow> point list \<Rightarrow> point list \<Rightarrow> path" where
  "squirc_simple accuracy exponent sz center rotation clockwise boundingBox edgeCenters =
     (if \<not> isFinite exponent then
        [Lit ''M''] @ toString (boundingBox ! 0) @ [Lit '' L'']
          @ join '' '' (map toString (drop 1 boundingBox)) @ [Lit ''Z'']
      else if js_eq exponent (Fin 1) then
        [Lit ''M''] @ toString (edgeCenters ! 0) @ [Lit '' L'']
          @ join '' '' (map toString (drop 1 edgeCenters)) @ [Lit ''Z'']
      else if js_eq exponent (Fin 2) then
        [Lit ''M''] @ toString (edgeCenters ! 0) @ [Lit ''A'']
          @ [Num (js_div (px sz) (Fin 2)), Lit '' '', Num (js_div (py sz) (Fin 2)),
             Lit '' 0 0 '', Num (if clockwise then Fin 1 else Fin 0), Lit '' '']
          @ toString (edgeCenters ! 2) @ [Lit '' '']
          @ [Num (js_div (px sz) (Fin 2)), Lit '' '', Num (js_div (py sz) (Fin 2)),
             Lit '' 0 0 '', Num (if clockwise then Fin 1 else Fin 0), Lit '' '']
          @ toString (edgeCenters ! 0)
      else
        [Lit ''M''] @ toString (if clockwise then edgeCenters ! 0 else edgeCenters ! 3)
          @ concat (map (\<lambda>i. [Lit ''L'']
                 @ toString (simple_point accuracy exponent sz center rotation clockwise i))
              (indices_up accuracy 1))
          @ [Lit ''Z''])"

section \<open>The anisotropic evaluator\<close>

text \<open>
  The closures \<open>f\<close> and \<open>df\<close> of \<open>hybridial_squircular_cos\<close> and its loop of five
  Newton steps from \<open>x = 1\<close>.
\<close>

definition newton_f :: "jsnum \<Rightarrow> point \<Rightarrow> jsnum \<Rightarrow> jsnum" where
  "newton_f angle exponent x =
     js_sub (js_add (js_pow x (px exponent)) (js_pow (js_mul (js_tan angle) x) (py exponent)))
       (Fin 1)"

definition newton_df :: "jsnum \<Rightarrow> point \<Rightarrow> jsnum \<Rightarrow> jsnum" where
  "newton_df angle exponent x =
     js_add (js_mul (px exponent) (js_pow x (js_sub (px exponent) (Fin 1))))
       (js_mul (js_mul (py exponent) (js_pow (js_tan angle) (py exponent)))
          (js_pow x (js_sub (py exponent) (Fin 1))))"

function newton_loop :: "jsnum \<Rightarrow> point \<Rightarrow> nat \<Rightarrow> jsnum \<Rightarrow> jsnum" where
  "newton_loop angle exponent i x =
     (if i < 5 then
        (let dfx = newton_df angle exponent x;
             fx = newton_f angle exponent x
         in newton_loop angle exponent (i + 1) (js_sub x (js_div fx dfx)))
      else x)"
  by pat_completeness auto
termination
  by (relation "measure (\<lambda>(angle, exponent, i, x). 5 - i)") auto

declare newton_loop.simps [simp del]

text \<open>
  \<open>hybridial_squircular_cos\<close> does not reduce its angle first, and on an infinite angle
  its two reflections call each other without end: the function is partial, and its
  result is \<open>None\<close> where the call does not return. The subtraction of the model is
  exact, so that here the reflections end on every finite angle; in double arithmetic
  \<open>Math.PI - a\<close> is \<open>-a\<close> for a very large \<open>a\<close>, and the reflections do not end
  there either. The generator passes angles between \<open>-2 * pi\<close> and \<open>5 * pi / 2\<close> only,
  where the two agree.
\<close>

partial_function (option) hybridial_squircular_cos :: "jsnum \<Rightarrow> point \<Rightarrow> jsnum option" where
  "hybridial_squircular_cos angle exponent =
     (if js_lt angle (Fin 0) then hybridial_squircular_cos (js_neg angle) exponent
      else if js_gt angle (js_div PI (Fin 2))
      then Option.bind (hybridial_squircular_cos (js_sub PI angle) exponent)
             (\<lambda>c. Some (js_neg c))
      else (let x = newton_loop angle exponent 0 (Fin 1)
            in Some (if isNaN x then Fin 1 else x)))"

definition hybridial_squircular_sin :: "jsnum \<Rightarrow> point \<Rightarrow> jsnum option" where
  "hybridial_squircular_sin angle exponent =
     hybridial_squircular_cos (js_sub (js_div PI (Fin 2)) angle)
       (Point (py exponent) (px exponent))"

definition hybridial_squircular_quadrant_explicit :: "jsnum \<Rightarrow> point \<Rightarrow> jsnum" where
  "hybridial_squircular_quadrant_explicit x exponent =
     js_pow (js_sub (Fin 1) (js_pow x (px exponent))) (js_div (Fin 1) (py exponent))"

text \<open>
  A sample of the angular regime. It calls the partial evaluator, so it is \<open>None\<close> where
  one of the two calls does not return.
\<close>

definition hybridial_point ::
  "int \<Rightarrow> point \<Rightarrow> point \<Rightarrow> point \<Rightarrow> jsnum \<Rightarrow> bool \<Rightarrow> int \<Rightarrow> point option" where
  "hybridial_point accuracy exponent sz center rotation clockwise i =
     (let angle = sample_angle accuracy clockwise i
      in Option.bind (hybridial_squircular_cos angle exponent)
           (\<lambda>c. Option.bind (hybridial_squircular_sin angle exponent)
              (\<lambda>s. let p = Point (js_mul (js_div (px sz) (Fin 2)) c)
                                 (js_mul (js_div (py sz) (Fin 2)) (js_neg s));
                        p = rotate_point p rotation;
                        p = add p center
                    in Some p)))"

text \<open>
  The counter values of the two loop headers of the quadrant walk,
  \<open>for (let i = 1; i < accuracy/4; i++)\<close> and
  \<open>for (let i = Math.floor(accuracy/4); i >= 1; i--)\<close>.
\<close>

function quarter_up :: "int \<Rightarrow> int \<Rightarrow> int list" where
  "quarter_up accuracy i =
     (if js_lt (num i) (js_div (num accuracy) (Fin 4)) then i # quarter_up accuracy (i + 1)
      else [])"
  by pat_completeness auto
termination
proof (relation "measure (\<lambda>(accuracy, i). nat (\<lceil>of_int accuracy / (4::real)\<rceil> - i))",
    goal_cases)
  case 1
  show ?case by simp
next
  case (2 accuracy i)
  then have "of_int i < of_int accuracy / (4::real)" by (simp add: num_def)
  then have "i < \<lceil>of_int accuracy / (4::real)\<rceil>" by (simp add: less_ceiling_iff)
  then show ?case by simp
qed

function quarter_down :: "int \<Rightarrow> int list" where
  "quarter_down i = (if js_ge (num i) (Fin 1) then i # quarter_down (i - 1) else [])"
  by pat_completeness auto
termination
  by (relation "measure nat") (auto simp: num_def js_ge_def js_eq_def)

declare quarter_up.simps [simp del] quarter_down.simps [simp del]

text \<open>
  The abscissa \<open>x = i * step\<close> of a step of the walk, and the body shared by the four
  loops: \<open>fx\<close> and \<open>fy\<close> are the factors of \<open>x\<close> and \<open>y\<close> in the loop at hand.
\<close>

definition quadrant_x :: "int \<Rightarrow> int \<Rightarrow> jsnum" where
  "quadrant_x accuracy i = (let step = js_div (Fin 4) (num accuracy) in js_mul (num i) step)"

definition quadrant_point ::
  "int \<Rightarrow> point \<Rightarrow> point \<Rightarrow> jsnum \<Rightarrow> jsnum \<Rightarrow> jsnum \<Rightarrow> int \<Rightarrow> point" where
  "quadrant_point accuracy exponent center rotation fx fy i =
     (let x = quadrant_x accuracy i;
          y = hybridial_squircular_quadrant_explicit x exponent;
          p = Point (js_mul fx x) (js_mul fy y);
          p = rotate_point p rotation;
          p = add p center
      in p)"

definition quadrant_walk ::
  "int \<Rightarrow> point \<Rightarrow> point \<Rightarrow> point \<Rightarrow> jsnum \<Rightarrow> bool \<Rightarrow> path" where
  "quadrant_walk accuracy exponent sz center rotation clockwise =
     (let cws = (if clockwise then Fin 1 else Fin (- 1));
          body = (\<lambda>fx fy i.
             toString (quadrant_point accuracy exponent center rotation fx fy i) @ [Lit '' ''])
      in concat (map
           (body (js_div (js_mul cws (px sz)) (Fin 2)) (js_div (js_neg (py sz)) (Fin 2)))
           (quarter_up accuracy 1))
         @ concat (map
           (body (js_div (js_mul cws (px sz)) (Fin 2)) (js_div (py sz) (Fin 2)))
           (quarter_down \<lfloor>of_int accuracy / (4::real)\<rfloor>))
         @ concat (map
           (body (js_div (js_mul (js_neg cws) (px sz)) (Fin 2)) (js_div (py sz) (Fin 2)))
           (quarter_up accuracy 1))
         @ concat (map
           (body (js_div (js_mul (js_neg cws) (px sz)) (Fin 2))
              (js_div (js_neg (py sz)) (Fin 2)))
           (quarter_down \<lfloor>of_int accuracy / (4::real)\<rfloor>)))"

definition hybridial_squircle ::
  "int \<Rightarrow> point \<Rightarrow> point \<Rightarrow> point \<Rightarrow> jsnum \<Rightarrow> bool \<Rightarrow> point list \<Rightarrow> point list \<Rightarrow> path option"
  where
  "hybridial_squircle accuracy exponent sz center rotation clockwise boundingBox edgeCenters =
     (let pathString =
            [Lit ''M''] @ toString (if clockwise then edgeCenters ! 0 else edgeCenters ! 3)
              @ [Lit ''L'']
      in if js_ge (px exponent) (Fin (3 / 2)) \<and> js_ge (py exponent) (Fin (3 / 2)) then
           Option.bind
             (those (map (hybridial_point accuracy exponent sz center rotation clockwise)
                (indices_up accuracy 1)))
             (\<lambda>points. Some (pathString
                @ concat (map (\<lambda>p. toString p @ [Lit '' '']) points) @ [Lit ''Z'']))
         else
           (let (exponent, rotation) =
                  (if js_lt (px exponent) (py exponent)
                   then (Point (py exponent) (px exponent), js_add rotation (js_div PI (Fin 2)))
                   else (exponent, rotation))
            in Some (pathString @ quadrant_walk accuracy exponent sz center rotation clockwise
                       @ [Lit ''Z''])))"

section \<open>The entry point\<close>

text \<open>
  The exponent of \<open>squirc\<close> is a number or a \<open>Point\<close>. The corners of the bounding box
  and the midpoints of its edges are rotated and then moved to the centre; both arrays
  are reversed for a counter-clockwise path.
\<close>

datatype exponent = Scalar jsnum | Pair point

definition corners :: "point \<Rightarrow> point list" where
  "corners sz =
     [Point (js_div (js_neg (px sz)) (Fin 2)) (js_div (js_neg (py sz)) (Fin 2)),
      Point (js_div (px sz) (Fin 2)) (js_div (js_neg (py sz)) (Fin 2)),
      Point (js_div (px sz) (Fin 2)) (js_div (py sz) (Fin 2)),
      Point (js_div (js_neg (px sz)) (Fin 2)) (js_div (py sz) (Fin 2))]"

definition midpoints :: "point \<Rightarrow> point list" where
  "midpoints sz =
     [Point (Fin 0) (js_div (js_neg (py sz)) (Fin 2)),
      Point (js_div (px sz) (Fin 2)) (Fin 0),
      Point (Fin 0) (js_div (py sz) (Fin 2)),
      Point (js_div (js_neg (px sz)) (Fin 2)) (Fin 0)]"

definition squirc ::
  "int \<Rightarrow> exponent \<Rightarrow> point \<Rightarrow> point \<Rightarrow> jsnum \<Rightarrow> bool \<Rightarrow> path option" where
  "squirc accuracy exponent sz center rotation clockwise =
     (let boundingBox = map (\<lambda>p. add p center) (map (\<lambda>p. rotate_point p rotation) (corners sz));
          edgeCenters = map (\<lambda>p. add p center) (map (\<lambda>p. rotate_point p rotation) (midpoints sz));
          boundingBox = (if \<not> clockwise then rev boundingBox else boundingBox);
          edgeCenters = (if \<not> clockwise then rev edgeCenters else edgeCenters);
          exponent = (case exponent of
                        Pair e \<Rightarrow> if js_eq (px e) (py e) then Scalar (px e) else exponent
                      | Scalar e \<Rightarrow> exponent)
      in case exponent of
           Scalar e \<Rightarrow>
             Some (squirc_simple accuracy e sz center rotation clockwise boundingBox edgeCenters)
         | Pair e \<Rightarrow>
             hybridial_squircle accuracy e sz center rotation clockwise boundingBox edgeCenters)"

section \<open>Reading a path\<close>

text \<open>
  The midpoint of an edge of the bounding box, rotated and moved to the centre: entry
  \<open>k\<close> of the array \<open>edgeCenters\<close> as \<open>squirc\<close> first builds it, which is in clockwise
  order, the top edge at 0, the right edge at 1, the bottom edge at 2 and the left edge
  at 3.
\<close>

definition edge_midpoint :: "point \<Rightarrow> point \<Rightarrow> jsnum \<Rightarrow> nat \<Rightarrow> point" where
  "edge_midpoint sz center rotation k = add (rotate_point (midpoints sz ! k) rotation) center"

text \<open>The point of the move command a path starts with.\<close>

fun move_point :: "path \<Rightarrow> point option" where
  "move_point (Lit s # Num a # Lit t # Num b # ps) =
     (if s = ''M'' \<and> t = '' '' then Some (Point a b) else None)"
| "move_point _ = None"

text \<open>
  The points a path of move and line commands visits, in order: each pair of numbers
  with a literal (the space) between them.
\<close>

fun vertices :: "path \<Rightarrow> point list" where
  "vertices (Num a # Lit s # Num b # ps) = Point a b # vertices ps"
| "vertices (p # ps) = vertices ps"
| "vertices [] = []"

text \<open>
  \<open>Math.abs\<close>, and the equation \<open>|2x/size.x|^ex + |2y/size.y|^ey = 1\<close> of the
  anisotropic superellipse, for a point given relative to the centre and before rotation.
\<close>

fun js_abs :: "jsnum \<Rightarrow> jsnum" where
  "js_abs NaN = NaN"
| "js_abs (Fin a) = Fin \<bar>a\<bar>"
| "js_abs _ = PosInf"

definition superellipse_equation :: "point \<Rightarrow> point \<Rightarrow> point \<Rightarrow> bool" where
  "superellipse_equation exponent sz p =
     js_eq (js_add (js_pow (js_abs (js_div (js_mul (Fin 2) (px p)) (px sz))) (px exponent))
                   (js_pow (js_abs (js_div (js_mul (Fin 2) (py p)) (py sz))) (py exponent)))
       (Fin 1)"

text \<open>The vertices of the path that \<open>squirc\<close> returns.\<close>

definition path_vertices ::
  "int \<Rightarrow> exponent \<Rightarrow> point \<Rightarrow> point \<Rightarrow> jsnum \<Rightarrow> bool \<Rightarrow> point list option" where
  "path_vertices accuracy exponent sz center rotation clockwise =
     map_option vertices (squirc accuracy exponent sz center rotation clockwise)"

text \<open>
  What \<open>hybridial_squircular_cos\<close> returns on a finite angle, where it does return.
\<close>

definition hybridial_cos_value :: "real \<Rightarrow> point \<Rightarrow> jsnum" where
  "hybridial_cos_value a exponent = the (hybridial_squircular_cos (Fin a) exponent)"

section \<open>The loops and the partial evaluator\<close>

text \<open>The counter values of the three loop headers, as intervals of integers.\<close>

lemma indices_up_upto: "indices_up accuracy i = [i..accuracy - 1]"
proof (induction accuracy i rule: indices_up.induct)
  case (1 accuracy i)
  show ?case
  proof (cases "i < accuracy")
    case True
    then have "indices_up accuracy i = i # indices_up accuracy (i + 1)"
      by (subst indices_up.simps) (simp add: num_def)
    also have "\<dots> = i # [i + 1..accuracy - 1]" using 1 True by (simp add: num_def)
    also have "\<dots> = [i..accuracy - 1]" using True by (simp add: upto_rec1)
    finally show ?thesis .
  next
    case False
    then show ?thesis by (subst indices_up.simps) (simp add: num_def)
  qed
qed

lemma quarter_up_upto: "quarter_up accuracy i = [i..\<lceil>of_int accuracy / (4::real)\<rceil> - 1]"
proof (induction accuracy i rule: quarter_up.induct)
  case (1 accuracy i)
  show ?case
  proof (cases "of_int i < of_int accuracy / (4::real)")
    case True
    then have lt: "i < \<lceil>of_int accuracy / (4::real)\<rceil>" by (simp add: less_ceiling_iff)
    have "quarter_up accuracy i = i # quarter_up accuracy (i + 1)"
      using True by (subst quarter_up.simps) (simp add: num_def)
    also have "\<dots> = i # [i + 1..\<lceil>of_int accuracy / (4::real)\<rceil> - 1]"
      using 1 True by (simp add: num_def)
    also have "\<dots> = [i..\<lceil>of_int accuracy / (4::real)\<rceil> - 1]" using lt by (simp add: upto_rec1)
    finally show ?thesis .
  next
    case False
    then have "\<not> i < \<lceil>of_int accuracy / (4::real)\<rceil>" by (simp add: less_ceiling_iff)
    then show ?thesis using False by (subst quarter_up.simps) (simp add: num_def)
  qed
qed

lemma quarter_down_upto: "quarter_down i = rev [1..i]"
proof (induction i rule: quarter_down.induct)
  case (1 i)
  show ?case
  proof (cases "1 \<le> i")
    case True
    then have "quarter_down i = i # quarter_down (i - 1)"
      by (subst quarter_down.simps) (auto simp add: num_def js_ge_def js_eq_def)
    also have "\<dots> = i # rev [1..i - 1]"
    proof -
      have "js_ge (num i) (Fin 1)" using True by (auto simp add: num_def js_ge_def js_eq_def)
      then show ?thesis using 1 by simp
    qed
    also have "\<dots> = rev [1..i]" using True by (simp add: upto_rec2)
    finally show ?thesis .
  next
    case False
    then show ?thesis by (subst quarter_down.simps) (auto simp add: num_def js_ge_def js_eq_def)
  qed
qed

text \<open>
  On a finite angle, and on \<open>NaN\<close>, \<open>hybridial_squircular_cos\<close> returns, and what it
  returns is not \<open>NaN\<close>: the reflections end, by the rank of the angle, and the last
  line of the function replaces a \<open>NaN\<close> by 1.
\<close>

lemma isNaN_js_neg [simp]: "isNaN (js_neg a) = isNaN a"
  by (cases a) simp_all

lemma hybridial_cos_finite_angle:
  "\<exists>c. hybridial_squircular_cos (Fin a) exponent = Some c \<and> \<not> isNaN c"
proof (induction "quadrant_rank a" arbitrary: a rule: less_induct)
  case less
  show ?case
  proof (cases "a < 0")
    case True
    then have "quadrant_rank (- a) < quadrant_rank a" by (rule quadrant_rank_neg)
    then obtain c where "hybridial_squircular_cos (Fin (- a)) exponent = Some c" "\<not> isNaN c"
      using less by blast
    then show ?thesis using True by (subst hybridial_squircular_cos.simps) simp
  next
    case False
    show ?thesis
    proof (cases "pi / 2 < a")
      case True
      then have "quadrant_rank (pi - a) < quadrant_rank a" by (rule quadrant_rank_reflect)
      then obtain c where "hybridial_squircular_cos (Fin (pi - a)) exponent = Some c" "\<not> isNaN c"
        using less by blast
      then show ?thesis using True False
        by (subst hybridial_squircular_cos.simps) (simp add: js_gt_def PI_def js_sub_def)
    next
      case nb: False
      show ?thesis using False nb
        by (subst hybridial_squircular_cos.simps) (simp add: js_gt_def PI_def Let_def)
    qed
  qed
qed

lemma hybridial_cos_NaN_angle:
  "\<exists>c. hybridial_squircular_cos NaN exponent = Some c \<and> \<not> isNaN c"
  by (subst hybridial_squircular_cos.simps) (simp add: js_gt_def PI_def Let_def)

lemma those_map_Some:
  "(\<And>x. x \<in> set xs \<Longrightarrow> \<exists>y. f x = Some y) \<Longrightarrow> \<exists>ys. those (map f xs) = Some ys"
proof (induction xs)
  case Nil
  show ?case by simp
next
  case (Cons x xs)
  obtain y where "f x = Some y" using Cons.prems[of x] by auto
  moreover obtain ys where "those (map f xs) = Some ys" using Cons by force
  ultimately show ?case by simp
qed

lemma sample_angle_finite:
  "accuracy \<noteq> 0 \<Longrightarrow> \<exists>a. sample_angle accuracy clockwise i = Fin a"
  by (simp add: sample_angle_def Let_def PI_def num_def js_sub_def)

lemma hybridial_point_returns:
  assumes "accuracy \<noteq> 0"
  shows "\<exists>p. hybridial_point accuracy exponent sz center rotation clockwise i = Some p"
proof -
  obtain a where a: "sample_angle accuracy clockwise i = Fin a"
    using sample_angle_finite[OF assms] by blast
  obtain c where c: "hybridial_squircular_cos (Fin a) exponent = Some c"
    using hybridial_cos_finite_angle by blast
  obtain s where s: "hybridial_squircular_sin (Fin a) exponent = Some s"
    unfolding hybridial_squircular_sin_def
    using hybridial_cos_finite_angle[of "pi / 2 - a"] by (auto simp: PI_def js_sub_def)
  show ?thesis by (simp add: hybridial_point_def a c s Let_def)
qed

lemma hybridial_squircle_returns:
  "\<exists>body. hybridial_squircle accuracy exponent sz center rotation clockwise boundingBox edgeCenters
     = Some ([Lit ''M''] @ toString (if clockwise then edgeCenters ! 0 else edgeCenters ! 3)
         @ [Lit ''L''] @ body @ [Lit ''Z''])"
proof (cases "js_ge (px exponent) (Fin (3 / 2)) \<and> js_ge (py exponent) (Fin (3 / 2))")
  case True
  have "\<exists>p. hybridial_point accuracy exponent sz center rotation clockwise i = Some p"
    if "i \<in> set (indices_up accuracy 1)" for i
  proof -
    from that have "accuracy \<noteq> 0" by (auto simp: indices_up_upto)
    then show ?thesis by (rule hybridial_point_returns)
  qed
  then obtain points where
    "those (map (hybridial_point accuracy exponent sz center rotation clockwise)
       (indices_up accuracy 1)) = Some points"
    using those_map_Some[of "indices_up accuracy 1"
        "hybridial_point accuracy exponent sz center rotation clockwise"] by blast
  then show ?thesis using True by (simp add: hybridial_squircle_def Let_def)
next
  case False
  then show ?thesis by (auto simp add: hybridial_squircle_def Let_def split: prod.splits)
qed

lemma move_point_toString:
  "move_point ([Lit ''M''] @ toString p @ rest) = Some p"
  by (simp add: toString_def)

section \<open>The circle\<close>

lemma edge_midpoint_unrotated:
  "edge_midpoint (Point (Fin w) (Fin h)) (Point (Fin cx) (Fin cy)) (Fin 0) 0
     = Point (Fin cx) (Fin (cy - h / 2))"
  "edge_midpoint (Point (Fin w) (Fin h)) (Point (Fin cx) (Fin cy)) (Fin 0) 1
     = Point (Fin (cx + w / 2)) (Fin cy)"
  "edge_midpoint (Point (Fin w) (Fin h)) (Point (Fin cx) (Fin cy)) (Fin 0) 2
     = Point (Fin cx) (Fin (cy + h / 2))"
  "edge_midpoint (Point (Fin w) (Fin h)) (Point (Fin cx) (Fin cy)) (Fin 0) 3
     = Point (Fin (cx - w / 2)) (Fin cy)"
  by (simp_all add: edge_midpoint_def midpoints_def rotate_point_def add_def js_sub_def
      eval_nat_numeral)

text \<open>
  Claim C4, as stated, fails for a counter-clockwise circle: with size (2, 2), centre
  (0, 0) and no rotation the path starts at (-1, 0), the left edge midpoint, while the
  top edge midpoint is (0, -1).
\<close>

theorem circle_counterclockwise_starts_left:
  "Option.bind
     (squirc 101 (Scalar (Fin 2)) (Point (Fin 2) (Fin 2)) (Point (Fin 0) (Fin 0)) (Fin 0) False)
     move_point = Some (Point (Fin (- 1)) (Fin 0))
   \<and> edge_midpoint (Point (Fin 2) (Fin 2)) (Point (Fin 0) (Fin 0)) (Fin 0) 0
       = Point (Fin 0) (Fin (- 1))"
  by (simp add: squirc_def squirc_simple_def js_eq_def Let_def midpoints_def
      edge_midpoint_unrotated toString_def rotate_point_def add_def js_sub_def)

text \<open>
  Claim C4, amended: for exponent exactly 2 and every size, centre, rotation and
  winding, the path is the move command followed by one \<open>A\<close> command that carries two
  elliptical arcs, each with the radii \<open>size.x/2\<close> and \<open>size.y/2\<close>, x-axis rotation 0,
  large-arc flag 0 and the winding flag (1 for clockwise, 0 otherwise) as sweep flag. A
  clockwise path starts at the top edge midpoint, goes to the bottom edge midpoint and
  back; a counter-clockwise path starts at the left edge midpoint, goes to the right
  edge midpoint and back.
\<close>

theorem circle_two_arcs:
  "squirc accuracy (Scalar (Fin 2)) sz center rotation clockwise =
     Some ([Lit ''M''] @ toString (edge_midpoint sz center rotation (if clockwise then 0 else 3))
       @ [Lit ''A'', Num (js_div (px sz) (Fin 2)), Lit '' '', Num (js_div (py sz) (Fin 2)),
          Lit '' 0 0 '', Num (if clockwise then Fin 1 else Fin 0), Lit '' '']
       @ toString (edge_midpoint sz center rotation (if clockwise then 2 else 1))
       @ [Lit '' '', Num (js_div (px sz) (Fin 2)), Lit '' '', Num (js_div (py sz) (Fin 2)),
          Lit '' 0 0 '', Num (if clockwise then Fin 1 else Fin 0), Lit '' '']
       @ toString (edge_midpoint sz center rotation (if clockwise then 0 else 3)))"
  by (cases clockwise)
    (simp_all add: squirc_def squirc_simple_def js_eq_def edge_midpoint_def midpoints_def Let_def
      eval_nat_numeral)

text \<open>
  The scenario of the specification: \<open>squirc(2, new Point(2, 2), new Point(0, 0))\<close>, with
  the default rotation 0 and the default clockwise winding, gives two arcs of radius 1,
  from (0, -1) to (0, 1) and back.
\<close>

theorem circle_two_arcs_witness:
  "squirc 101 (Scalar (Fin 2)) (Point (Fin 2) (Fin 2)) (Point (Fin 0) (Fin 0)) (Fin 0) True =
     Some [Lit ''M'', Num (Fin 0), Lit '' '', Num (Fin (- 1)),
           Lit ''A'', Num (Fin 1), Lit '' '', Num (Fin 1), Lit '' 0 0 '', Num (Fin 1), Lit '' '',
           Num (Fin 0), Lit '' '', Num (Fin 1), Lit '' '',
           Num (Fin 1), Lit '' '', Num (Fin 1), Lit '' 0 0 '', Num (Fin 1), Lit '' '',
           Num (Fin 0), Lit '' '', Num (Fin (- 1))]"
  using circle_two_arcs [of 101 "Point (Fin 2) (Fin 2)" "Point (Fin 0) (Fin 0)" "Fin 0" True]
  by (simp add: edge_midpoint_unrotated toString_def)

text \<open>
  Every path other than the circle's ends with \<open>Z\<close>: the square, the diamond and the
  sampled path of a scalar exponent, and both regimes of a \<open>Point\<close> exponent.
\<close>

lemma other_paths_close:
  "(\<not> js_eq e (Fin 2) \<longrightarrow>
      map_option last (squirc accuracy (Scalar e) sz center rotation clockwise) = Some (Lit ''Z''))
   \<and> (\<not> js_eq (px ee) (py ee) \<longrightarrow>
      map_option last (squirc accuracy (Pair ee) sz center rotation clockwise) = Some (Lit ''Z''))"
proof (intro conjI impI)
  assume "\<not> js_eq e (Fin 2)"
  then show "map_option last (squirc accuracy (Scalar e) sz center rotation clockwise)
      = Some (Lit ''Z'')"
    by (simp add: squirc_def squirc_simple_def Let_def)
next
  assume ne: "\<not> js_eq (px ee) (py ee)"
  let ?ec = "map (\<lambda>p. add p center) (map (\<lambda>p. rotate_point p rotation) (midpoints sz))"
  let ?bb = "map (\<lambda>p. add p center) (map (\<lambda>p. rotate_point p rotation) (corners sz))"
  obtain body where
    "hybridial_squircle accuracy ee sz center rotation clockwise
       (if \<not> clockwise then rev ?bb else ?bb) (if \<not> clockwise then rev ?ec else ?ec)
     = Some ([Lit ''M''] @ toString (if clockwise then (if \<not> clockwise then rev ?ec else ?ec) ! 0
          else (if \<not> clockwise then rev ?ec else ?ec) ! 3)
         @ [Lit ''L''] @ body @ [Lit ''Z''])"
    using hybridial_squircle_returns by blast
  then show "map_option last (squirc accuracy (Pair ee) sz center rotation clockwise)
      = Some (Lit ''Z'')"
    using ne by (cases clockwise) (simp_all add: squirc_def Let_def)
qed

text \<open>
  Claim C3 at exponent 2: the path of \<open>squirc(2)\<close>, with the default size (1, 1), centre
  (0.5, 0.5), rotation 0 and clockwise winding, ends with the coordinates of the second
  arc. No \<open>Z\<close> follows them, whereas every other branch of the generator ends its path
  with \<open>Z\<close>.
\<close>

theorem circle_path_has_no_close:
  "squirc 101 (Scalar (Fin 2)) (Point (Fin 1) (Fin 1)) (Point (Fin (1 / 2)) (Fin (1 / 2)))
     (Fin 0) True =
     Some [Lit ''M'', Num (Fin (1 / 2)), Lit '' '', Num (Fin 0),
           Lit ''A'', Num (Fin (1 / 2)), Lit '' '', Num (Fin (1 / 2)), Lit '' 0 0 '',
           Num (Fin 1), Lit '' '',
           Num (Fin (1 / 2)), Lit '' '', Num (Fin 1), Lit '' '',
           Num (Fin (1 / 2)), Lit '' '', Num (Fin (1 / 2)), Lit '' 0 0 '',
           Num (Fin 1), Lit '' '',
           Num (Fin (1 / 2)), Lit '' '', Num (Fin 0)]"
  by (simp add: squirc_def squirc_simple_def js_eq_def Let_def midpoints_def
      toString_def rotate_point_def add_def js_sub_def)

section \<open>Equal exponents\<close>

text \<open>
  Claim C5: for every scalar exponent \<open>e\<close> (a number: \<open>NaN\<close> is not equal to itself
  under \<open>===\<close>), the call with the \<open>Point\<close> exponent \<open>(e, e)\<close> returns what the call with
  the scalar exponent \<open>e\<close> returns, all other arguments being the same.
\<close>

theorem equal_components_collapse:
  "\<not> isNaN e \<Longrightarrow>
   squirc accuracy (Pair (Point e e)) sz center rotation clockwise =
   squirc accuracy (Scalar e) sz center rotation clockwise"
  by (simp add: squirc_def js_eq_def Let_def)

text \<open>
  The scenario of the specification for the square, called with the pair of exponents:
  \<open>squirc(new Point(Infinity, Infinity), new Point(2, 2), new Point(0, 0))\<close> visits
  (-1, -1), (1, -1), (1, 1) and (-1, 1).
\<close>

theorem equal_components_collapse_witness:
  "\<not> isNaN PosInf
   \<and> squirc 101 (Pair (Point PosInf PosInf)) (Point (Fin 2) (Fin 2)) (Point (Fin 0) (Fin 0))
       (Fin 0) True
     = Some [Lit ''M'', Num (Fin (- 1)), Lit '' '', Num (Fin (- 1)), Lit '' L'',
             Num (Fin 1), Lit '' '', Num (Fin (- 1)), Lit '' '',
             Num (Fin 1), Lit '' '', Num (Fin 1), Lit '' '',
             Num (Fin (- 1)), Lit '' '', Num (Fin 1), Lit ''Z'']"
  using equal_components_collapse [of PosInf 101 "Point (Fin 2) (Fin 2)" "Point (Fin 0) (Fin 0)"
      "Fin 0" True]
  by (simp add: squirc_def squirc_simple_def Let_def corners_def toString_def rotate_point_def
      add_def js_sub_def)

section \<open>The starting anchor of a sampled path\<close>

text \<open>
  Claim C2, as stated, fails for a counter-clockwise path: with exponent 3, size (2, 2),
  centre (0, 0) and no rotation the move point is (0, -1), the top edge midpoint, while
  the left edge midpoint is (-1, 0).
\<close>

theorem counterclockwise_anchor_is_top:
  "Option.bind (squirc 101 (Scalar (Fin 3)) (Point (Fin 2) (Fin 2)) (Point (Fin 0) (Fin 0))
       (Fin 0) False) move_point = Some (Point (Fin 0) (Fin (- 1)))
   \<and> edge_midpoint (Point (Fin 2) (Fin 2)) (Point (Fin 0) (Fin 0)) (Fin 0) 3
       = Point (Fin (- 1)) (Fin 0)"
  by (simp add: squirc_def squirc_simple_def js_eq_def Let_def midpoints_def
      edge_midpoint_unrotated toString_def rotate_point_def add_def js_sub_def)

text \<open>
  Claim C2, amended: for every finite exponent other than 1 and 2, and for every
  \<open>Point\<close> exponent with unequal components (angular regime and quadrant walk alike),
  the generator returns a path, and its move point is the rotated and translated top
  edge midpoint, whether \<open>clockwise\<close> is true or false: the generator reads entry 0 of
  \<open>edgeCenters\<close> for a clockwise path and entry 3 of the reversed array otherwise.
\<close>

theorem sampled_path_starts_at_top:
  "(isFinite e \<and> \<not> js_eq e (Fin 1) \<and> \<not> js_eq e (Fin 2) \<longrightarrow>
      Option.bind (squirc accuracy (Scalar e) sz center rotation clockwise) move_point
        = Some (edge_midpoint sz center rotation 0))
   \<and> (\<not> js_eq (px ee) (py ee) \<longrightarrow>
      Option.bind (squirc accuracy (Pair ee) sz center rotation clockwise) move_point
        = Some (edge_midpoint sz center rotation 0))"
proof (intro conjI impI)
  assume "isFinite e \<and> \<not> js_eq e (Fin 1) \<and> \<not> js_eq e (Fin 2)"
  then have "squirc accuracy (Scalar e) sz center rotation clockwise
      = Some ([Lit ''M''] @ toString (edge_midpoint sz center rotation 0)
          @ (concat (map (\<lambda>i. [Lit ''L'']
                 @ toString (simple_point accuracy e sz center rotation clockwise i))
              (indices_up accuracy 1)) @ [Lit ''Z'']))"
    by (cases clockwise)
      (simp_all add: squirc_def squirc_simple_def Let_def edge_midpoint_def midpoints_def
        eval_nat_numeral)
  then show "Option.bind (squirc accuracy (Scalar e) sz center rotation clockwise) move_point
        = Some (edge_midpoint sz center rotation 0)"
    by (simp only: move_point_toString Option.bind.simps)
next
  assume ne: "\<not> js_eq (px ee) (py ee)"
  let ?ec = "map (\<lambda>p. add p center) (map (\<lambda>p. rotate_point p rotation) (midpoints sz))"
  let ?bb = "map (\<lambda>p. add p center) (map (\<lambda>p. rotate_point p rotation) (corners sz))"
  obtain body where
    "hybridial_squircle accuracy ee sz center rotation clockwise
       (if \<not> clockwise then rev ?bb else ?bb) (if \<not> clockwise then rev ?ec else ?ec)
     = Some ([Lit ''M''] @ toString (if clockwise then (if \<not> clockwise then rev ?ec else ?ec) ! 0
          else (if \<not> clockwise then rev ?ec else ?ec) ! 3)
         @ [Lit ''L''] @ body @ [Lit ''Z''])"
    using hybridial_squircle_returns by blast
  then have "squirc accuracy (Pair ee) sz center rotation clockwise
      = Some ([Lit ''M''] @ toString (edge_midpoint sz center rotation 0)
          @ ([Lit ''L''] @ body @ [Lit ''Z'']))"
    using ne
    by (cases clockwise)
      (simp_all add: squirc_def Let_def edge_midpoint_def midpoints_def eval_nat_numeral)
  then show "Option.bind (squirc accuracy (Pair ee) sz center rotation clockwise) move_point
        = Some (edge_midpoint sz center rotation 0)"
    by (simp only: move_point_toString Option.bind.simps)
qed

theorem sampled_path_starts_at_top_witness:
  "Option.bind (squirc 101 (Scalar (Fin 3)) (Point (Fin 2) (Fin 2)) (Point (Fin 0) (Fin 0))
       (Fin 0) False) move_point = Some (Point (Fin 0) (Fin (- 1)))
   \<and> Option.bind (squirc 101 (Pair (Point (Fin 2) (Fin 3))) (Point (Fin 2) (Fin 2))
       (Point (Fin 0) (Fin 0)) (Fin 0) False) move_point = Some (Point (Fin 0) (Fin (- 1)))"
  using sampled_path_starts_at_top [of "Fin 3" 101 "Point (Fin 2) (Fin 2)"
      "Point (Fin 0) (Fin 0)" "Fin 0" False "Point (Fin 2) (Fin 3)"]
  by (simp add: js_eq_def edge_midpoint_unrotated)

section \<open>The Newton solve\<close>

lemma js_tan_zero: "js_tan (Fin 0) = Fin 0"
  by (simp add: js_tan_def)

lemma newton_loop_NaN: "newton_loop angle exponent i NaN = NaN"
proof (induction angle exponent i "NaN" rule: newton_loop.induct)
  case (1 angle exponent i)
  then show ?case by (subst newton_loop.simps) (simp add: js_sub_def Let_def)
qed

lemma newton_residual_zero:
  "0 < a \<Longrightarrow> 0 < b \<Longrightarrow> newton_f (Fin 0) (Point (Fin a) (Fin b)) (Fin 1) = Fin 0"
  by (simp add: newton_f_def js_tan_zero js_sub_def)

lemma newton_slope:
  "0 < a \<Longrightarrow> 0 < b \<Longrightarrow> newton_df (Fin 0) (Point (Fin a) (Fin b)) (Fin 1) = Fin a"
  by (simp add: newton_df_def js_tan_zero js_sub_def)

lemma newton_loop_fixed:
  "0 < a \<Longrightarrow> 0 < b \<Longrightarrow> newton_loop (Fin 0) (Point (Fin a) (Fin b)) i (Fin 1) = Fin 1"
proof (induction "Fin 0" "Point (Fin a) (Fin b)" i "Fin 1" rule: newton_loop.induct)
  case (1 i)
  then show ?case
    by (subst newton_loop.simps) (simp add: newton_residual_zero newton_slope js_sub_def Let_def)
qed

lemma newton_first_step_NaN:
  assumes "js_gt ex (Fin 0)" "js_gt ey (Fin 0)" "\<not> (isFinite ex \<and> isFinite ey)"
  shows "js_sub (Fin 1) (js_div (newton_f (Fin 0) (Point ex ey) (Fin 1))
           (newton_df (Fin 0) (Point ex ey) (Fin 1))) = NaN"
  using assms
  by (cases ex; cases ey)
    (simp_all add: js_gt_def newton_f_def newton_df_def js_tan_zero js_sub_def)

text \<open>
  Claim C7: for every exponent pair with both components strictly positive, the
  anisotropic cosine at angle 0 is exactly 1. For finite components the residual \<open>f(1)\<close>
  is exactly 0 and the five Newton steps from \<open>x = 1\<close> leave \<open>x\<close> at 1; with an
  infinite component the steps give \<open>NaN\<close>, which the last line replaces by 1.
\<close>

theorem hybridial_cos_at_zero:
  "js_gt ex (Fin 0) \<and> js_gt ey (Fin 0) \<longrightarrow>
     hybridial_squircular_cos (Fin 0) (Point ex ey) = Some (Fin 1)
     \<and> (isFinite ex \<and> isFinite ey \<longrightarrow>
          newton_f (Fin 0) (Point ex ey) (Fin 1) = Fin 0
          \<and> newton_loop (Fin 0) (Point ex ey) 0 (Fin 1) = Fin 1)"
proof (intro impI conjI)
  assume pos: "js_gt ex (Fin 0) \<and> js_gt ey (Fin 0)"
  have loop: "newton_loop (Fin 0) (Point ex ey) 0 (Fin 1) = Fin 1
      \<or> newton_loop (Fin 0) (Point ex ey) 0 (Fin 1) = NaN"
  proof (cases "isFinite ex \<and> isFinite ey")
    case True
    then obtain a b where "ex = Fin a" "ey = Fin b" by (cases ex; cases ey) auto
    then show ?thesis using pos newton_loop_fixed[of a b 0] by (simp add: js_gt_def)
  next
    case False
    have "newton_loop (Fin 0) (Point ex ey) 0 (Fin 1) = newton_loop (Fin 0) (Point ex ey) 1 NaN"
      using newton_first_step_NaN[of ex ey] pos False
      by (subst newton_loop.simps) (simp add: Let_def)
    then show ?thesis by (simp add: newton_loop_NaN)
  qed
  have "hybridial_squircular_cos (Fin 0) (Point ex ey)
      = Some (if isNaN (newton_loop (Fin 0) (Point ex ey) 0 (Fin 1)) then Fin 1
              else newton_loop (Fin 0) (Point ex ey) 0 (Fin 1))"
    by (subst hybridial_squircular_cos.simps) (simp add: js_gt_def PI_def Let_def)
  then show "hybridial_squircular_cos (Fin 0) (Point ex ey) = Some (Fin 1)"
    using loop by auto
next
  assume pos: "js_gt ex (Fin 0) \<and> js_gt ey (Fin 0)" and fin: "isFinite ex \<and> isFinite ey"
  then obtain a b where ab: "ex = Fin a" "ey = Fin b" by (cases ex; cases ey) auto
  then show "newton_f (Fin 0) (Point ex ey) (Fin 1) = Fin 0"
    using pos by (simp add: js_gt_def newton_residual_zero)
  show "newton_loop (Fin 0) (Point ex ey) 0 (Fin 1) = Fin 1"
    using pos ab by (simp add: js_gt_def newton_loop_fixed)
qed

theorem hybridial_cos_at_zero_witness:
  "hybridial_squircular_cos (Fin 0) (Point (Fin 2) (Fin (1 / 2))) = Some (Fin 1)
   \<and> newton_f (Fin 0) (Point (Fin 2) (Fin (1 / 2))) (Fin 1) = Fin 0
   \<and> newton_loop (Fin 0) (Point (Fin 2) (Fin (1 / 2))) 0 (Fin 1) = Fin 1"
  using hybridial_cos_at_zero [of "Fin 2" "Fin (1 / 2)"]
  by (simp add: js_gt_def)

section \<open>The exponent 0\<close>

lemma js_pow_zero_exponent: "js_pow t (Fin 0) = Fin 1"
  by (cases t) simp_all

lemma js_add_zero_left: "js_add (Fin 0) c = c"
  by (cases c) simp_all

lemma squirc_cos_exponent_zero: "squirc_cos angle (Fin 0) = Fin 0"
proof (induction angle "Fin 0" rule: squirc_cos.induct)
  case (1 angle)
  then show ?case
    by (subst squirc_cos.simps)
      (simp add: Let_def js_pow_zero_exponent signed_inf_def)
qed

lemma simple_point_exponent_zero:
  "simple_point accuracy (Fin 0) (Point (Fin w) (Fin h)) center (Fin r) clockwise i = center"
  by (simp add: simple_point_def Let_def squirc_sin_def squirc_cos_exponent_zero
      rotate_point_def add_def js_sub_def js_add_zero_left)

lemma top_midpoint_off_center:
  assumes "h \<noteq> 0"
  shows "edge_midpoint (Point (Fin w) (Fin h)) (Point (Fin cx) (Fin cy)) (Fin r) 0
     \<noteq> Point (Fin cx) (Fin cy)"
proof
  assume "edge_midpoint (Point (Fin w) (Fin h)) (Point (Fin cx) (Fin cy)) (Fin r) 0
     = Point (Fin cx) (Fin cy)"
  then have "h * sin r = 0" "h * cos r = 0"
    by (simp_all add: edge_midpoint_def midpoints_def rotate_point_def add_def js_sub_def)
  then have "sin r = 0" "cos r = 0" using assms by simp_all
  then show False using sin_cos_squared_add[of r] by simp
qed

text \<open>
  Claim C10: for the scalar exponent 0 the isotropic cosine is 0 at every angle, and,
  for a finite size, centre and rotation, the path is the move command at the top edge
  midpoint followed by \<open>accuracy - 1\<close> line commands, every one of them at the centre
  itself. The move point differs from the centre as soon as the height is not 0.
\<close>

theorem exponent_zero_collapses_to_center:
  "squirc_cos angle (Fin 0) = Fin 0
   \<and> squirc accuracy (Scalar (Fin 0)) (Point (Fin w) (Fin h)) (Point (Fin cx) (Fin cy)) (Fin r)
       clockwise
     = Some ([Lit ''M'']
         @ toString (edge_midpoint (Point (Fin w) (Fin h)) (Point (Fin cx) (Fin cy)) (Fin r) 0)
         @ concat (replicate (nat (accuracy - 1))
             ([Lit ''L''] @ toString (Point (Fin cx) (Fin cy))))
         @ [Lit ''Z''])
   \<and> (h \<noteq> 0 \<longrightarrow>
        edge_midpoint (Point (Fin w) (Fin h)) (Point (Fin cx) (Fin cy)) (Fin r) 0
          \<noteq> Point (Fin cx) (Fin cy))"
proof (intro conjI impI)
  show "squirc_cos angle (Fin 0) = Fin 0" by (rule squirc_cos_exponent_zero)
  have "map (\<lambda>i. [Lit ''L''] @ toString (simple_point accuracy (Fin 0) (Point (Fin w) (Fin h))
           (Point (Fin cx) (Fin cy)) (Fin r) clockwise i)) (indices_up accuracy 1)
      = replicate (nat (accuracy - 1)) ([Lit ''L''] @ toString (Point (Fin cx) (Fin cy)))"
    by (simp add: simple_point_exponent_zero indices_up_upto map_replicate_const)
  then show "squirc accuracy (Scalar (Fin 0)) (Point (Fin w) (Fin h)) (Point (Fin cx) (Fin cy))
       (Fin r) clockwise
     = Some ([Lit ''M'']
         @ toString (edge_midpoint (Point (Fin w) (Fin h)) (Point (Fin cx) (Fin cy)) (Fin r) 0)
         @ concat (replicate (nat (accuracy - 1))
             ([Lit ''L''] @ toString (Point (Fin cx) (Fin cy))))
         @ [Lit ''Z''])"
    by (cases clockwise)
      (simp_all add: squirc_def squirc_simple_def Let_def js_eq_def edge_midpoint_def midpoints_def
        eval_nat_numeral)
next
  assume "h \<noteq> 0"
  then show "edge_midpoint (Point (Fin w) (Fin h)) (Point (Fin cx) (Fin cy)) (Fin r) 0
          \<noteq> Point (Fin cx) (Fin cy)"
    by (rule top_midpoint_off_center)
qed

theorem exponent_zero_collapses_to_center_witness:
  "squirc 4 (Scalar (Fin 0)) (Point (Fin 2) (Fin 2)) (Point (Fin 1) (Fin 1)) (Fin 0) True
     = Some [Lit ''M'', Num (Fin 1), Lit '' '', Num (Fin 0),
             Lit ''L'', Num (Fin 1), Lit '' '', Num (Fin 1),
             Lit ''L'', Num (Fin 1), Lit '' '', Num (Fin 1),
             Lit ''L'', Num (Fin 1), Lit '' '', Num (Fin 1),
             Lit ''Z'']
   \<and> Point (Fin 1) (Fin 0) \<noteq> Point (Fin 1) (Fin 1)"
  using exponent_zero_collapses_to_center [of "Fin 0" 4 2 2 1 1 0 True]
  by (simp add: edge_midpoint_unrotated toString_def eval_nat_numeral)

section \<open>The quadrant walk\<close>

lemma quarter_steps: "\<lceil>of_int accuracy / (4::real)\<rceil> - 1 = (accuracy - 1) div 4"
proof -
  have "\<lceil>of_int accuracy / (4::real)\<rceil> = - ((- accuracy) div 4)"
    using ceiling_divide_eq_div [of accuracy 4, where ?'a = real] by simp
  then show ?thesis by presburger
qed

text \<open>
  Claim C8, as stated, fails at the default accuracy 101: the first loop of the walk
  takes 25 steps, one for each \<open>i < 25.25\<close>, and not \<open>\<lfloor>101/4\<rfloor> - 1 = 24\<close>.
\<close>

theorem default_accuracy_takes_25_steps:
  "length (quarter_up 101 1) = 25 \<and> \<lfloor>(101::real) / 4\<rfloor> - 1 = 24"
  by (simp add: quarter_up_upto)

text \<open>
  Claim C8, amended: for every integer accuracy of at least 4, the first (ascending)
  loop of the walk takes the counter through 1, 2, ... up to \<open>\<lceil>accuracy/4\<rceil> - 1\<close>, which
  is \<open>\<lfloor>accuracy/4\<rfloor> - 1\<close> steps when 4 divides the accuracy and \<open>\<lfloor>accuracy/4\<rfloor>\<close> steps
  otherwise; the abscissa of step \<open>i\<close> is \<open>i * (4 / accuracy)\<close>, strictly less than 1.
\<close>

theorem quadrant_walk_steps:
  "4 \<le> accuracy \<Longrightarrow>
   quarter_up accuracy 1 = [1..(accuracy - 1) div 4]
   \<and> int (length (quarter_up accuracy 1))
       = (if 4 dvd accuracy then accuracy div 4 - 1 else accuracy div 4)
   \<and> (\<forall>i \<in> set (quarter_up accuracy 1).
         quadrant_x accuracy i = Fin (of_int i * (4 / of_int accuracy))
         \<and> of_int i * (4 / of_int accuracy) < (1::real))"
proof (intro conjI ballI)
  assume acc: "4 \<le> accuracy"
  show eq: "quarter_up accuracy 1 = [1..(accuracy - 1) div 4]"
    by (simp add: quarter_up_upto quarter_steps)
  show "int (length (quarter_up accuracy 1))
       = (if 4 dvd accuracy then accuracy div 4 - 1 else accuracy div 4)"
    unfolding eq using acc by (simp; presburger)
  fix i assume "i \<in> set (quarter_up accuracy 1)"
  then have i: "1 \<le> i" "i \<le> (accuracy - 1) div 4" unfolding eq by simp_all
  show "quadrant_x accuracy i = Fin (of_int i * (4 / of_int accuracy))"
    using acc by (simp add: quadrant_x_def num_def Let_def)
  have "4 * i < accuracy" using i by presburger
  then have "of_int (4 * i) < (of_int accuracy :: real)" by (simp only: of_int_less_iff)
  then show "of_int i * (4 / of_int accuracy) < (1::real)"
    using acc by (simp add: field_simps)
qed

theorem quadrant_walk_steps_witness:
  "(4::int) \<le> 101 \<and> quarter_up 101 1 = [1..25] \<and> length (quarter_up 101 1) = 25
   \<and> quadrant_x 101 25 = Fin (100 / 101) \<and> (100 / 101 :: real) < 1"
proof -
  have steps: "quarter_up 101 1 = [1..25]"
    and xs: "\<forall>i \<in> set (quarter_up 101 1).
      quadrant_x 101 i = Fin (of_int i * (4 / of_int 101)) \<and> of_int i * (4 / of_int 101) < (1::real)"
    using quadrant_walk_steps [of 101] by simp_all
  from xs have "quadrant_x 101 25 = Fin (100 / 101)" unfolding steps by simp
  then show ?thesis using steps by simp
qed

section \<open>The swap of the exponents\<close>

text \<open>
  Without the swap the walk stays on the superellipse: for the exponents (2, 1), size
  (4, 2), centre (0, 0), no rotation and accuracy 8, every vertex of the path satisfies
  the equation.
\<close>

lemma unswapped_walk_on_superellipse:
  "map_option vertices
     (squirc 8 (Pair (Point (Fin 2) (Fin 1))) (Point (Fin 4) (Fin 2)) (Point (Fin 0) (Fin 0))
        (Fin 0) True)
     = Some [Point (Fin 0) (Fin (- 1)),
             Point (Fin 1) (Fin (- (3 / 4))), Point (Fin 2) (Fin 0), Point (Fin 1) (Fin (3 / 4)),
             Point (Fin (- 1)) (Fin (3 / 4)), Point (Fin (- 2)) (Fin 0),
             Point (Fin (- 1)) (Fin (- (3 / 4)))]
   \<and> list_all (superellipse_equation (Point (Fin 2) (Fin 1)) (Point (Fin 4) (Fin 2)))
        [Point (Fin 0) (Fin (- 1)),
         Point (Fin 1) (Fin (- (3 / 4))), Point (Fin 2) (Fin 0), Point (Fin 1) (Fin (3 / 4)),
         Point (Fin (- 1)) (Fin (3 / 4)), Point (Fin (- 2)) (Fin 0),
         Point (Fin (- 1)) (Fin (- (3 / 4)))]"
proof -
  have up: "quarter_up 8 1 = [1]" by (simp add: quarter_up_upto upto_rec1)
  have down: "quarter_down \<lfloor>of_int 8 / (4::real)\<rfloor> = [2, 1]"
    by (simp add: quarter_down_upto upto_rec1)
  have x1: "quadrant_x 8 1 = Fin (1 / 2)" and x2: "quadrant_x 8 2 = Fin 1"
    by (simp_all add: quadrant_x_def num_def)
  have y1: "hybridial_squircular_quadrant_explicit (Fin (1 / 2)) (Point (Fin 2) (Fin 1)) = Fin (3 / 4)"
    and y2: "hybridial_squircular_quadrant_explicit (Fin 1) (Point (Fin 2) (Fin 1)) = Fin 0"
    by (simp_all add: hybridial_squircular_quadrant_explicit_def js_sub_def power2_eq_square)
  have walk: "quadrant_walk 8 (Point (Fin 2) (Fin 1)) (Point (Fin 4) (Fin 2)) (Point (Fin 0) (Fin 0))
       (Fin 0) True
     = [Num (Fin 1), Lit '' '', Num (Fin (- (3 / 4))), Lit '' '',
        Num (Fin 2), Lit '' '', Num (Fin 0), Lit '' '',
        Num (Fin 1), Lit '' '', Num (Fin (3 / 4)), Lit '' '',
        Num (Fin (- 1)), Lit '' '', Num (Fin (3 / 4)), Lit '' '',
        Num (Fin (- 2)), Lit '' '', Num (Fin 0), Lit '' '',
        Num (Fin (- 1)), Lit '' '', Num (Fin (- (3 / 4))), Lit '' '']"
    unfolding quadrant_walk_def Let_def up down
    by (simp add: quadrant_point_def x1 x2 y1 y2 toString_def rotate_point_def add_def js_sub_def)
  have "squirc 8 (Pair (Point (Fin 2) (Fin 1))) (Point (Fin 4) (Fin 2)) (Point (Fin 0) (Fin 0))
        (Fin 0) True
     = Some ([Lit ''M'', Num (Fin 0), Lit '' '', Num (Fin (- 1)), Lit ''L'']
         @ quadrant_walk 8 (Point (Fin 2) (Fin 1)) (Point (Fin 4) (Fin 2)) (Point (Fin 0) (Fin 0))
             (Fin 0) True
         @ [Lit ''Z''])"
    by (simp add: squirc_def hybridial_squircle_def Let_def js_eq_def js_ge_def midpoints_def
        toString_def rotate_point_def add_def js_sub_def PI_def)
  then show ?thesis unfolding walk
    by (simp add: superellipse_equation_def js_eq_def power2_eq_square)
qed

text \<open>
  Claim C1 at an input that takes the swap: exponent (1, 2), size (4, 2), centre (0, 0),
  no rotation, accuracy 8. The walk is computed with the exponents (2, 1) and a rotation
  of a quarter turn, but the size is not swapped: the path leaves the bounding box at
  (0, 2), and its vertex (3/4, 1) does not satisfy the equation of the superellipse with
  the exponents (1, 2), where \<open>|2x/4| + |2y/2|^2\<close> is 11/8.
\<close>

theorem swapped_walk_leaves_superellipse:
  "map_option vertices
     (squirc 8 (Pair (Point (Fin 1) (Fin 2))) (Point (Fin 4) (Fin 2)) (Point (Fin 0) (Fin 0))
        (Fin 0) True)
     = Some [Point (Fin 0) (Fin (- 1)),
             Point (Fin (3 / 4)) (Fin 1), Point (Fin 0) (Fin 2), Point (Fin (- (3 / 4))) (Fin 1),
             Point (Fin (- (3 / 4))) (Fin (- 1)), Point (Fin 0) (Fin (- 2)),
             Point (Fin (3 / 4)) (Fin (- 1))]
   \<and> \<not> superellipse_equation (Point (Fin 1) (Fin 2)) (Point (Fin 4) (Fin 2))
         (Point (Fin (3 / 4)) (Fin 1))"
proof -
  have up: "quarter_up 8 1 = [1]" by (simp add: quarter_up_upto upto_rec1)
  have down: "quarter_down \<lfloor>of_int 8 / (4::real)\<rfloor> = [2, 1]"
    by (simp add: quarter_down_upto upto_rec1)
  have x1: "quadrant_x 8 1 = Fin (1 / 2)" and x2: "quadrant_x 8 2 = Fin 1"
    by (simp_all add: quadrant_x_def num_def)
  have y1: "hybridial_squircular_quadrant_explicit (Fin (1 / 2)) (Point (Fin 2) (Fin 1)) = Fin (3 / 4)"
    and y2: "hybridial_squircular_quadrant_explicit (Fin 1) (Point (Fin 2) (Fin 1)) = Fin 0"
    by (simp_all add: hybridial_squircular_quadrant_explicit_def js_sub_def power2_eq_square)
  have walk: "quadrant_walk 8 (Point (Fin 2) (Fin 1)) (Point (Fin 4) (Fin 2)) (Point (Fin 0) (Fin 0))
       (Fin (pi / 2)) True
     = [Num (Fin (3 / 4)), Lit '' '', Num (Fin 1), Lit '' '',
        Num (Fin 0), Lit '' '', Num (Fin 2), Lit '' '',
        Num (Fin (- (3 / 4))), Lit '' '', Num (Fin 1), Lit '' '',
        Num (Fin (- (3 / 4))), Lit '' '', Num (Fin (- 1)), Lit '' '',
        Num (Fin 0), Lit '' '', Num (Fin (- 2)), Lit '' '',
        Num (Fin (3 / 4)), Lit '' '', Num (Fin (- 1)), Lit '' '']"
    unfolding quadrant_walk_def Let_def up down
    by (simp add: quadrant_point_def x1 x2 y1 y2 toString_def rotate_point_def add_def js_sub_def)
  have "squirc 8 (Pair (Point (Fin 1) (Fin 2))) (Point (Fin 4) (Fin 2)) (Point (Fin 0) (Fin 0))
        (Fin 0) True
     = Some ([Lit ''M'', Num (Fin 0), Lit '' '', Num (Fin (- 1)), Lit ''L'']
         @ quadrant_walk 8 (Point (Fin 2) (Fin 1)) (Point (Fin 4) (Fin 2)) (Point (Fin 0) (Fin 0))
             (Fin (pi / 2)) True
         @ [Lit ''Z''])"
    by (simp add: squirc_def hybridial_squircle_def Let_def js_eq_def js_ge_def midpoints_def
        toString_def rotate_point_def add_def js_sub_def PI_def)
  then show ?thesis unfolding walk
    by (simp add: superellipse_equation_def js_eq_def)
qed

section \<open>Reversing the winding\<close>

text \<open>The vertices of the paths of line commands.\<close>

lemma vertices_Lit [simp]: "vertices (Lit s # ps) = vertices ps"
  by (cases ps rule: vertices.cases) simp_all

lemma vertices_toString [simp]: "vertices (toString p @ ps) = p # vertices ps"
  by (simp add: toString_def)

lemma vertices_lines:
  "vertices (concat (map (\<lambda>i. Lit ''L'' # toString (q i)) is) @ [Lit ''Z'']) = map q is"
  by (induction "is") simp_all

lemma vertices_points:
  "vertices (concat (map (\<lambda>p. toString p @ [Lit '' '']) ps) @ rest) = ps @ vertices rest"
  by (induction ps) simp_all

lemma vertices_walk:
  "vertices (concat (map (\<lambda>i. toString (q i) @ [Lit '' '']) is) @ rest) = map q is @ vertices rest"
  by (induction "is") simp_all

text \<open>
  The square and the diamond: the counter-clockwise path visits the four points of the
  clockwise path in reverse order.
\<close>

lemma square_diamond_reversed:
  assumes "\<not> isFinite e \<or> js_eq e (Fin 1)"
  shows "\<exists>vs. path_vertices accuracy (Scalar e) sz center rotation True = Some vs
     \<and> path_vertices accuracy (Scalar e) sz center rotation False = Some (rev vs)
     \<and> length vs = 4"
  using assms
  by (auto simp add: path_vertices_def squirc_def squirc_simple_def Let_def corners_def
      midpoints_def)

text \<open>
  The quadrant walk. The descending loops take one step more than the ascending ones
  when 4 divides the accuracy; that step is at \<open>x = 1\<close>, where \<open>y = 0\<close> and the sign
  of the factor of \<open>y\<close> makes no difference.
\<close>

lemma upto_snoc: "i \<le> j \<Longrightarrow> [i..j] = [i..j - 1] @ [j]"
  by (simp add: upto_rec2)

lemma floor_ceiling_quarter:
  "\<lfloor>of_int accuracy / (4::real)\<rfloor> = \<lceil>of_int accuracy / (4::real)\<rceil> - 1
   \<or> (\<lfloor>of_int accuracy / (4::real)\<rfloor> = \<lceil>of_int accuracy / (4::real)\<rceil>
      \<and> accuracy = 4 * \<lfloor>of_int accuracy / (4::real)\<rfloor>)"
proof -
  have c: "\<lceil>of_int accuracy / (4::real)\<rceil> = - ((- accuracy) div 4)"
    using ceiling_divide_eq_div [of accuracy 4, where ?'a = real] by simp
  have f: "\<lfloor>of_int accuracy / (4::real)\<rfloor> = accuracy div 4"
    using floor_divide_of_int_eq [of accuracy 4, where ?'a = real] by simp
  show ?thesis unfolding c f by presburger
qed

lemma explicit_at_one:
  "0 < b \<Longrightarrow> hybridial_squircular_quadrant_explicit (Fin 1) (Point (Fin a) (Fin b)) = Fin 0"
  by (simp add: hybridial_squircular_quadrant_explicit_def js_sub_def)

lemma js_mul_zero_sign:
  "js_mul (js_div (js_neg h) (Fin 2)) (Fin 0) = js_mul (js_div h (Fin 2)) (Fin 0)"
  by (cases h) (simp_all add: signed_inf_def)

lemma quadrant_point_on_axis:
  assumes "0 < b" "accuracy = 4 * k" "0 < k"
  shows "quadrant_point accuracy (Point (Fin a) (Fin b)) center rotation fx
           (js_div (js_neg h) (Fin 2)) k
       = quadrant_point accuracy (Point (Fin a) (Fin b)) center rotation fx
           (js_div h (Fin 2)) k"
proof -
  have "quadrant_x accuracy k = Fin 1"
    using assms by (simp add: quadrant_x_def num_def)
  then show ?thesis
    using assms by (simp add: quadrant_point_def Let_def explicit_at_one js_mul_zero_sign)
qed

lemma quadrant_walk_reversed:
  assumes "0 < b"
  shows "vertices (quadrant_walk accuracy (Point (Fin a) (Fin b)) sz center rotation False
            @ [Lit ''Z''])
       = rev (vertices (quadrant_walk accuracy (Point (Fin a) (Fin b)) sz center rotation True
            @ [Lit ''Z'']))"
proof -
  let ?Q = "quadrant_point accuracy (Point (Fin a) (Fin b)) center rotation"
  let ?xp = "js_div (js_mul (Fin 1) (px sz)) (Fin 2)"
  let ?xm = "js_div (js_mul (Fin (- 1)) (px sz)) (Fin 2)"
  let ?yp = "js_div (py sz) (Fin 2)"
  let ?ym = "js_div (js_neg (py sz)) (Fin 2)"
  let ?m = "\<lceil>of_int accuracy / (4::real)\<rceil> - 1"
  let ?k = "\<lfloor>of_int accuracy / (4::real)\<rfloor>"
  have cw: "vertices (quadrant_walk accuracy (Point (Fin a) (Fin b)) sz center rotation True
            @ [Lit ''Z''])
      = map (?Q ?xp ?ym) [1..?m] @ map (?Q ?xp ?yp) (rev [1..?k])
        @ map (?Q ?xm ?yp) [1..?m] @ map (?Q ?xm ?ym) (rev [1..?k])"
    by (simp add: quadrant_walk_def Let_def vertices_walk quarter_up_upto quarter_down_upto)
  have ccw: "vertices (quadrant_walk accuracy (Point (Fin a) (Fin b)) sz center rotation False
            @ [Lit ''Z''])
      = map (?Q ?xm ?ym) [1..?m] @ map (?Q ?xm ?yp) (rev [1..?k])
        @ map (?Q ?xp ?yp) [1..?m] @ map (?Q ?xp ?ym) (rev [1..?k])"
    by (simp add: quadrant_walk_def Let_def vertices_walk quarter_up_upto quarter_down_upto)
  from floor_ceiling_quarter[of accuracy] show ?thesis
  proof
    assume "?k = ?m"
    then show ?thesis unfolding cw ccw by (simp add: rev_map)
  next
    assume h: "?k = \<lceil>of_int accuracy / (4::real)\<rceil> \<and> accuracy = 4 * ?k"
    show ?thesis
    proof (cases "0 < ?k")
      case True
      have km: "?m = ?k - 1" using h by simp
      have axis: "?Q fx ?ym ?k = ?Q fx ?yp ?k" for fx
        using quadrant_point_on_axis[OF assms, of accuracy ?k] h True by simp
      have split: "[1..?k] = [1..?k - 1] @ [?k]" using True by (simp add: upto_snoc)
      show ?thesis unfolding cw ccw km
        by (subst (1 2 3 4) split) (simp add: rev_map axis)
    next
      case False
      then have "[1..?k] = []" "[1..?m] = []" using h by simp_all
      then show ?thesis unfolding cw ccw by simp
    qed
  qed
qed

lemma quadrant_regime_reversed:
  assumes fin: "isFinite (px e)" "isFinite (py e)"
    and pos: "js_gt (px e) (Fin 0)" "js_gt (py e) (Fin 0)"
    and ne: "\<not> js_eq (px e) (py e)"
    and low: "\<not> (js_ge (px e) (Fin (3 / 2)) \<and> js_ge (py e) (Fin (3 / 2)))"
  shows "\<exists>ps. path_vertices accuracy (Pair e) sz center rotation True
           = Some (edge_midpoint sz center rotation 0 # ps)
       \<and> path_vertices accuracy (Pair e) sz center rotation False
           = Some (edge_midpoint sz center rotation 0 # rev ps)"
proof -
  obtain a b where e: "e = Point (Fin a) (Fin b)" and ab: "0 < a" "0 < b"
    using fin pos by (cases e; cases "px e"; cases "py e") (auto simp: js_gt_def)
  define e' where "e' = (if a < b then Point (Fin b) (Fin a) else Point (Fin a) (Fin b))"
  define r' where "r' = (if a < b then js_add rotation (js_div PI (Fin 2)) else rotation)"
  have "\<exists>a' b'. e' = Point (Fin a') (Fin b') \<and> 0 < b'"
    using ab by (cases "a < b") (simp_all add: e'_def)
  then obtain a' b' where e': "e' = Point (Fin a') (Fin b')" and b': "0 < b'"
    by blast
  have v: "path_vertices accuracy (Pair e) sz center rotation clockwise
      = Some (edge_midpoint sz center rotation 0
          # vertices (quadrant_walk accuracy e' sz center r' clockwise @ [Lit ''Z'']))"
    for clockwise
  proof -
    have nl: "(js_ge (Fin a) (Fin (3 / 2)) \<and> js_ge (Fin b) (Fin (3 / 2))) = False"
      using low e by simp
    have ne': "js_eq (Fin a) (Fin b) = False" using ne e by simp
    show ?thesis unfolding e e'_def r'_def
      by (cases clockwise)
        (simp_all add: path_vertices_def squirc_def hybridial_squircle_def Let_def nl ne'
          edge_midpoint_def midpoints_def eval_nat_numeral)
  qed
  show ?thesis unfolding v e' using quadrant_walk_reversed[OF b'] by simp
qed

text \<open>
  A function of the angle that obeys the two reflections of the evaluators takes the
  same value a full turn earlier, except possibly on the vertical axis.
\<close>

lemma js_neg_js_neg [simp]: "js_neg (js_neg v) = v"
  by (cases v) simp_all

lemma reflect_periodic:
  fixes f :: "real \<Rightarrow> jsnum"
  assumes N: "\<And>t. - (2 * pi) < t \<Longrightarrow> t < 0 \<Longrightarrow> f t = f (- t)"
    and R: "\<And>t. pi / 2 < t \<Longrightarrow> t < 2 * pi \<Longrightarrow> f t = js_neg (f (pi - t))"
    and a: "0 < a" "a < 2 * pi"
    and ax: "a = pi / 2 \<or> a = 3 * pi / 2 \<Longrightarrow> js_neg (f (pi / 2)) = f (pi / 2)"
  shows "f (a - 2 * pi) = f a"
proof -
  have p: "0 < pi" by simp
  have first: "f (a - 2 * pi) = f (2 * pi - a)"
    using N[of "a - 2 * pi"] a by simp
  consider "a < pi / 2" | "a = pi / 2" | "pi / 2 < a" "a < pi" | "a = pi" | "pi < a" "a < 3 * pi / 2"
    | "a = 3 * pi / 2" | "3 * pi / 2 < a"
    by linarith
  then show ?thesis
  proof cases
    case 1
    have "f (2 * pi - a) = js_neg (f (pi - (2 * pi - a)))"
      using R[of "2 * pi - a"] a 1 p by simp
    also have "pi - (2 * pi - a) = a - pi" by simp
    also have "f (a - pi) = f (- (a - pi))" using N[of "a - pi"] a 1 p by simp
    also have "- (a - pi) = pi - a" by simp
    also have "f (pi - a) = js_neg (f (pi - (pi - a)))" using R[of "pi - a"] a 1 p by simp
    finally show ?thesis using first by simp
  next
    case 2
    have e1: "2 * pi - a = 3 * pi / 2" using 2 by simp
    have "f (3 * pi / 2) = js_neg (f (pi - 3 * pi / 2))"
      using R[of "3 * pi / 2"] p by simp
    also have "pi - 3 * pi / 2 = - (pi / 2)" by simp
    also have "f (- (pi / 2)) = f (pi / 2)" using N[of "- (pi / 2)"] p by simp
    finally have "f (3 * pi / 2) = f (pi / 2)" using ax 2 by simp
    then show ?thesis using first unfolding e1 2 by simp
  next
    case 3
    have fa: "f a = js_neg (f (pi - a))" using R[of a] 3 a by simp
    have "f (2 * pi - a) = js_neg (f (pi - (2 * pi - a)))"
      using R[of "2 * pi - a"] a 3 p by simp
    also have "pi - (2 * pi - a) = a - pi" by simp
    also have "f (a - pi) = f (- (a - pi))" using N[of "a - pi"] a 3 p by simp
    also have "- (a - pi) = pi - a" by simp
    finally show ?thesis using first fa by simp
  next
    case 4
    have fa: "f a = js_neg (f (pi - a))" using R[of a] 4 a p by simp
    have "f (2 * pi - a) = f a" using 4 by simp
    then show ?thesis using first by simp
  next
    case 5
    have "f a = js_neg (f (pi - a))" using R[of a] 5 a by simp
    also have "f (pi - a) = f (- (pi - a))" using N[of "pi - a"] 5 a p by simp
    also have "- (pi - a) = a - pi" by simp
    finally have fa: "f a = js_neg (f (a - pi))" .
    have "f (2 * pi - a) = js_neg (f (pi - (2 * pi - a)))"
      using R[of "2 * pi - a"] a 5 p by simp
    also have "pi - (2 * pi - a) = a - pi" by simp
    finally show ?thesis using first fa by simp
  next
    case 6
    have "f (3 * pi / 2) = js_neg (f (pi - 3 * pi / 2))"
      using R[of "3 * pi / 2"] p by simp
    also have "pi - 3 * pi / 2 = - (pi / 2)" by simp
    also have "f (- (pi / 2)) = f (pi / 2)" using N[of "- (pi / 2)"] p by simp
    finally have fa: "f (3 * pi / 2) = f (pi / 2)" using ax 6 by simp
    have e1: "2 * pi - a = pi / 2" using 6 by simp
    show ?thesis using first fa unfolding e1 6 by simp
  next
    case 7
    have "f a = js_neg (f (pi - a))" using R[of a] 7 a p by simp
    also have "f (pi - a) = f (- (pi - a))" using N[of "pi - a"] 7 a p by simp
    also have "- (pi - a) = a - pi" by simp
    also have "f (a - pi) = js_neg (f (pi - (a - pi)))" using R[of "a - pi"] 7 a p by simp
    also have "pi - (a - pi) = 2 * pi - a" by simp
    finally show ?thesis using first by simp
  qed
qed

text \<open>The isotropic evaluator, whose value on the vertical axis is 0.\<close>

lemma squirc_cos_negative:
  assumes "- (2 * pi) < t" "t < 0"
  shows "squirc_cos (Fin t) e = squirc_cos (Fin (- t)) e"
proof -
  have r: "js_rem (Fin t) (js_mul (Fin 2) PI) = Fin t"
    using assms by (intro js_rem_2pi_small) simp
  show ?thesis using assms by (subst squirc_cos.simps, simp only: r Let_def, simp)
qed

lemma squirc_cos_reflect:
  assumes "pi / 2 < t" "t < 2 * pi"
  shows "squirc_cos (Fin t) e = js_neg (squirc_cos (Fin (pi - t)) e)"
proof -
  have r: "js_rem (Fin t) (js_mul (Fin 2) PI) = Fin t"
    using assms by (intro js_rem_2pi_small) simp
  show ?thesis using assms
    by (subst squirc_cos.simps, simp only: r Let_def, simp add: js_gt_def PI_def js_sub_def)
qed

lemma squirc_cos_quarter:
  assumes "0 \<le> x"
  shows "squirc_cos (Fin (pi / 2)) (Fin x) = Fin 0"
proof -
  have r: "js_rem (Fin (pi / 2)) (js_mul (Fin 2) PI) = Fin (pi / 2)"
    by (intro js_rem_2pi_small) simp
  show ?thesis using assms
    by (subst squirc_cos.simps, simp only: r Let_def,
        simp add: js_gt_def PI_def js_tan_def signed_inf_def)
qed

lemma fmod_once: "0 < b \<Longrightarrow> b \<le> a \<Longrightarrow> a < 2 * b \<Longrightarrow> fmod a b = a - b"
proof -
  assume b: "0 < b" "b \<le> a" "a < 2 * b"
  have "1 \<le> a / b" "a / b < 2" using b by (simp_all add: field_simps)
  then have "trunc (a / b) = 1" unfolding trunc_def by (auto simp: floor_eq_iff)
  then show ?thesis by (simp add: fmod_def)
qed

lemma squirc_cos_wrap:
  assumes "2 * pi \<le> t" "t < 4 * pi"
  shows "squirc_cos (Fin t) e = squirc_cos (Fin (t - 2 * pi)) e"
proof -
  have r1: "js_rem (Fin t) (js_mul (Fin 2) PI) = Fin (t - 2 * pi)"
    using assms fmod_once[of "2 * pi" t] by (simp add: PI_def)
  have r2: "js_rem (Fin (t - 2 * pi)) (js_mul (Fin 2) PI) = Fin (t - 2 * pi)"
    using assms by (intro js_rem_2pi_small) simp
  show ?thesis
    by (subst squirc_cos.simps, subst (2) squirc_cos.simps) (simp only: r1 r2)
qed

lemma squirc_cos_periodic:
  assumes "0 \<le> x" "0 < a" "a < 5 * pi / 2"
  shows "squirc_cos (Fin (a - 2 * pi)) (Fin x) = squirc_cos (Fin a) (Fin x)"
proof (cases "a < 2 * pi")
  case True
  show ?thesis
  proof (rule reflect_periodic[where f = "\<lambda>t. squirc_cos (Fin t) (Fin x)"])
    show "squirc_cos (Fin t) (Fin x) = squirc_cos (Fin (- t)) (Fin x)"
      if "- (2 * pi) < t" "t < 0" for t using that by (rule squirc_cos_negative)
    show "squirc_cos (Fin t) (Fin x) = js_neg (squirc_cos (Fin (pi - t)) (Fin x))"
      if "pi / 2 < t" "t < 2 * pi" for t using that by (rule squirc_cos_reflect)
    show "0 < a" "a < 2 * pi" using assms True by simp_all
    show "js_neg (squirc_cos (Fin (pi / 2)) (Fin x)) = squirc_cos (Fin (pi / 2)) (Fin x)"
      using assms by (simp add: squirc_cos_quarter)
  qed
next
  case False
  then show ?thesis using assms squirc_cos_wrap[of a "Fin x"] by simp
qed

text \<open>
  Sample \<open>i\<close> of the counter-clockwise path and sample \<open>accuracy - i\<close> of the clockwise
  path are a full turn apart.
\<close>

lemma rev_upto: "rev [1..m] = map (\<lambda>i. m + 1 - i) [1..m]"
proof (rule nth_equalityI)
  show "length (rev [1..m]) = length (map (\<lambda>i. m + 1 - i) [1..m])" by simp
  fix k assume "k < length (rev [1..m])"
  then have k: "int k < m" by simp
  then have "rev [1..m] ! k = [1..m] ! (nat m - Suc k)" by (simp add: rev_nth)
  also have "\<dots> = 1 + int (nat m - Suc k)" using k by (intro nth_upto) linarith
  also have "\<dots> = m - int k" using k by linarith
  finally have l: "rev [1..m] ! k = m - int k" .
  have "map (\<lambda>i. m + 1 - i) [1..m] ! k = m + 1 - [1..m] ! k" using k by simp
  also have "[1..m] ! k = 1 + int k" using k by (intro nth_upto) linarith
  finally show "rev [1..m] ! k = map (\<lambda>i. m + 1 - i) [1..m] ! k" using l by simp
qed

lemma rev_map_upto: "rev (map g [1..m]) = map (\<lambda>i. g (m + 1 - i)) [1..m]"
  by (simp add: rev_map rev_upto comp_def)

lemma sample_angle_counterclockwise:
  "accuracy \<noteq> 0 \<Longrightarrow>
   sample_angle accuracy False i = Fin (pi / 2 + of_int i * (2 * pi / of_int accuracy))"
  by (simp add: sample_angle_def Let_def PI_def num_def)

lemma sample_angle_clockwise_mirror:
  "accuracy \<noteq> 0 \<Longrightarrow>
   sample_angle accuracy True (accuracy - i)
     = Fin (pi / 2 + of_int i * (2 * pi / of_int accuracy) - 2 * pi)"
  by (simp add: sample_angle_def Let_def PI_def num_def js_sub_def field_simps)

lemma sample_angle_range:
  assumes "1 \<le> i" "i < accuracy"
  shows "pi / 2 < pi / 2 + of_int i * (2 * pi / of_int accuracy)"
    and "pi / 2 + of_int i * (2 * pi / of_int accuracy) < 5 * pi / 2"
proof -
  have acc: "0 < (of_int accuracy :: real)" using assms by simp
  have "0 < (of_int i :: real)" using assms by simp
  then have "0 < of_int i * (2 * pi / of_int accuracy)" using acc by simp
  then show "pi / 2 < pi / 2 + of_int i * (2 * pi / of_int accuracy)" by simp
  have "(of_int i :: real) < of_int accuracy" using assms by simp
  then have "of_int i / of_int accuracy < (1::real)" using acc by simp
  then have "of_int i / of_int accuracy * (2 * pi) < 1 * (2 * pi)"
    by (intro mult_strict_right_mono) simp_all
  then show "pi / 2 + of_int i * (2 * pi / of_int accuracy) < 5 * pi / 2" by simp
qed

lemma simple_point_mirror:
  assumes "0 \<le> x" "1 \<le> i" "i < accuracy"
  shows "simple_point accuracy (Fin x) sz center rotation False i
       = simple_point accuracy (Fin x) sz center rotation True (accuracy - i)"
proof -
  define A where "A = pi / 2 + of_int i * (2 * pi / of_int accuracy)"
  have acc: "accuracy \<noteq> 0" using assms by simp
  have range: "pi / 2 < A" "A < 5 * pi / 2"
    unfolding A_def using sample_angle_range[OF assms(2,3)] by simp_all
  have ccw: "sample_angle accuracy False i = Fin A"
    unfolding A_def using acc by (rule sample_angle_counterclockwise)
  have cw: "sample_angle accuracy True (accuracy - i) = Fin (A - 2 * pi)"
    unfolding A_def using acc by (rule sample_angle_clockwise_mirror)
  have c: "squirc_cos (Fin (A - 2 * pi)) (Fin x) = squirc_cos (Fin A) (Fin x)"
    using assms(1) range by (intro squirc_cos_periodic) simp_all
  have "squirc_cos (Fin (5 * pi / 2 - A - 2 * pi)) (Fin x) = squirc_cos (Fin (5 * pi / 2 - A)) (Fin x)"
    using assms(1) range by (intro squirc_cos_periodic) simp_all
  moreover have "5 * pi / 2 - A - 2 * pi = pi / 2 - A" by simp
  moreover have "pi / 2 - (A - 2 * pi) = 5 * pi / 2 - A" by simp
  ultimately have s: "squirc_sin (Fin (A - 2 * pi)) (Fin x) = squirc_sin (Fin A) (Fin x)"
    by (simp add: squirc_sin_def PI_def js_sub_def)
  show ?thesis by (simp only: simple_point_def ccw cw Let_def c s)
qed

lemma simple_points_reversed:
  assumes "0 \<le> x"
  shows "map (simple_point accuracy (Fin x) sz center rotation False) [1..accuracy - 1]
       = rev (map (simple_point accuracy (Fin x) sz center rotation True) [1..accuracy - 1])"
proof -
  have "map (simple_point accuracy (Fin x) sz center rotation False) [1..accuracy - 1]
      = map (\<lambda>i. simple_point accuracy (Fin x) sz center rotation True (accuracy - i))
          [1..accuracy - 1]"
    using assms by (intro map_cong refl simple_point_mirror) simp_all
  then show ?thesis by (simp add: rev_map_upto)
qed

lemma isotropic_reversed:
  assumes "isFinite e" "js_ge e (Fin 0)" "\<not> js_eq e (Fin 1)" "\<not> js_eq e (Fin 2)"
  shows "\<exists>ps. path_vertices accuracy (Scalar e) sz center rotation True
           = Some (edge_midpoint sz center rotation 0 # ps)
       \<and> path_vertices accuracy (Scalar e) sz center rotation False
           = Some (edge_midpoint sz center rotation 0 # rev ps)"
proof -
  obtain x where x: "e = Fin x" "0 \<le> x"
    using assms(1,2) by (cases e) (auto simp: js_ge_def js_eq_def)
  have v: "path_vertices accuracy (Scalar (Fin x)) sz center rotation clockwise
      = Some (edge_midpoint sz center rotation 0
          # map (simple_point accuracy (Fin x) sz center rotation clockwise) [1..accuracy - 1])"
    for clockwise
    using assms(3,4) unfolding x(1)
    by (cases clockwise)
      (simp_all add: path_vertices_def squirc_def squirc_simple_def Let_def edge_midpoint_def
        midpoints_def eval_nat_numeral vertices_lines indices_up_upto)
  show ?thesis unfolding x(1) v
    using simple_points_reversed[OF x(2), of accuracy sz center rotation] by simp
qed

text \<open>
  The anisotropic evaluator in the angular regime. Its value on the vertical axis is
  not 0, so the samples must stay off the axes: the accuracy is odd.
\<close>

lemma hybridial_cos_value:
  "hybridial_squircular_cos (Fin a) exponent = Some (hybridial_cos_value a exponent)"
  using hybridial_cos_finite_angle[of a exponent] by (auto simp: hybridial_cos_value_def)

lemma hybridial_cos_negative:
  assumes "t < 0"
  shows "hybridial_cos_value t e = hybridial_cos_value (- t) e"
proof -
  have c1: "js_lt (Fin t) (Fin 0) = True" using assms by simp
  have "hybridial_squircular_cos (Fin t) e = hybridial_squircular_cos (Fin (- t)) e"
    by (rule trans[OF hybridial_squircular_cos.simps]) (simp only: c1 if_True js_neg.simps)
  then show ?thesis by (simp add: hybridial_cos_value)
qed

lemma hybridial_cos_reflect:
  assumes "pi / 2 < t"
  shows "hybridial_cos_value t e = js_neg (hybridial_cos_value (pi - t) e)"
proof -
  have "0 < t" using assms pi_gt_zero by linarith
  then have c1: "js_lt (Fin t) (Fin 0) = False" by simp
  have c2: "js_gt (Fin t) (js_div PI (Fin 2)) = True" using assms by (simp add: js_gt_def PI_def)
  have c3: "js_sub PI (Fin t) = Fin (pi - t)" by (simp add: PI_def js_sub_def)
  have "hybridial_squircular_cos (Fin t) e
      = Option.bind (hybridial_squircular_cos (Fin (pi - t)) e) (\<lambda>c. Some (js_neg c))"
    by (rule trans[OF hybridial_squircular_cos.simps]) (simp only: c1 c2 c3 if_True if_False)
  then show ?thesis by (simp add: hybridial_cos_value)
qed

lemma hybridial_cos_wrap:
  assumes "2 * pi \<le> a" "a < 5 * pi / 2"
  shows "hybridial_cos_value (a - 2 * pi) e = hybridial_cos_value a e"
proof -
  have p: "0 < pi" by simp
  have "hybridial_cos_value a e = js_neg (hybridial_cos_value (pi - a) e)"
    using assms p by (intro hybridial_cos_reflect) linarith
  also have "hybridial_cos_value (pi - a) e = hybridial_cos_value (- (pi - a)) e"
    using assms p by (intro hybridial_cos_negative) linarith
  also have "- (pi - a) = a - pi" by simp
  also have "hybridial_cos_value (a - pi) e = js_neg (hybridial_cos_value (pi - (a - pi)) e)"
    using assms p by (intro hybridial_cos_reflect) linarith
  also have "pi - (a - pi) = 2 * pi - a" by simp
  finally have chain: "hybridial_cos_value a e = hybridial_cos_value (2 * pi - a) e" by simp
  show ?thesis
  proof (cases "a = 2 * pi")
    case True
    then show ?thesis using chain by simp
  next
    case False
    then have "hybridial_cos_value (2 * pi - a) e = hybridial_cos_value (- (2 * pi - a)) e"
      using assms by (intro hybridial_cos_negative) linarith
    then show ?thesis using chain by simp
  qed
qed

lemma hybridial_cos_periodic:
  assumes "0 < a" "a < 5 * pi / 2" "a \<noteq> pi / 2" "a \<noteq> 3 * pi / 2"
  shows "hybridial_cos_value (a - 2 * pi) e = hybridial_cos_value a e"
proof (cases "a < 2 * pi")
  case True
  show ?thesis
  proof (rule reflect_periodic[where f = "\<lambda>t. hybridial_cos_value t e"])
    show "hybridial_cos_value t e = hybridial_cos_value (- t) e"
      if "- (2 * pi) < t" "t < 0" for t using that(2) by (rule hybridial_cos_negative)
    show "hybridial_cos_value t e = js_neg (hybridial_cos_value (pi - t) e)"
      if "pi / 2 < t" "t < 2 * pi" for t using that(1) by (rule hybridial_cos_reflect)
    show "0 < a" "a < 2 * pi" using assms True by simp_all
    show "js_neg (hybridial_cos_value (pi / 2) e) = hybridial_cos_value (pi / 2) e"
      if "a = pi / 2 \<or> a = 3 * pi / 2" using that assms by simp
  qed
next
  case False
  then show ?thesis using assms by (intro hybridial_cos_wrap) simp_all
qed

lemma sample_angle_off_axes:
  assumes "odd accuracy" "accuracy \<noteq> 0"
  shows "of_int i * (2 * pi / of_int accuracy) \<noteq> pi"
    and "of_int i * (2 * pi / of_int accuracy) \<noteq> pi / 2"
    and "of_int i * (2 * pi / of_int accuracy) \<noteq> 3 * pi / 2"
proof -
  have acc: "(of_int accuracy :: real) \<noteq> 0" using assms by simp
  have k: "of_int i * (2 * pi / of_int accuracy) = (q :: real) * pi \<longleftrightarrow>
      of_int (2 * i) = q * of_int accuracy" for q
    using acc by (simp add: field_simps)
  show "of_int i * (2 * pi / of_int accuracy) \<noteq> pi"
  proof
    assume "of_int i * (2 * pi / of_int accuracy) = pi"
    then have "(of_int (2 * i) :: real) = of_int accuracy" using k[of 1] by simp
    then have "2 * i = accuracy" by (simp only: of_int_eq_iff)
    then show False using assms by presburger
  qed
  show "of_int i * (2 * pi / of_int accuracy) \<noteq> pi / 2"
  proof
    assume "of_int i * (2 * pi / of_int accuracy) = pi / 2"
    then have "(of_int (2 * i) :: real) = (1 / 2) * of_int accuracy" using k[of "1 / 2"] by simp
    then have "(of_int (4 * i) :: real) = of_int accuracy" by simp
    then have "4 * i = accuracy" by (simp only: of_int_eq_iff)
    then show False using assms by presburger
  qed
  show "of_int i * (2 * pi / of_int accuracy) \<noteq> 3 * pi / 2"
  proof
    assume "of_int i * (2 * pi / of_int accuracy) = 3 * pi / 2"
    then have "(of_int (2 * i) :: real) = (3 / 2) * of_int accuracy" using k[of "3 / 2"] by simp
    then have "(of_int (4 * i) :: real) = of_int (3 * accuracy)" by simp
    then have "4 * i = 3 * accuracy" by (simp only: of_int_eq_iff)
    then show False using assms by presburger
  qed
qed

lemma those_map_the:
  "(\<And>x. x \<in> set xs \<Longrightarrow> \<exists>y. f x = Some y) \<Longrightarrow> those (map f xs) = Some (map (\<lambda>x. the (f x)) xs)"
proof (induction xs)
  case Nil
  show ?case by simp
next
  case (Cons x xs)
  obtain y where "f x = Some y" using Cons.prems[of x] by auto
  moreover have "those (map f xs) = Some (map (\<lambda>x. the (f x)) xs)" using Cons by force
  ultimately show ?case by simp
qed

lemma hybridial_point_mirror:
  assumes "odd accuracy" "1 \<le> i" "i < accuracy"
  shows "hybridial_point accuracy e sz center rotation False i
       = hybridial_point accuracy e sz center rotation True (accuracy - i)"
proof -
  define A where "A = pi / 2 + of_int i * (2 * pi / of_int accuracy)"
  have acc: "accuracy \<noteq> 0" using assms by simp
  have range: "pi / 2 < A" "A < 5 * pi / 2"
    unfolding A_def using sample_angle_range[OF assms(2,3)] by simp_all
  have off: "A \<noteq> 3 * pi / 2" "A \<noteq> pi" "A \<noteq> 2 * pi"
    unfolding A_def using sample_angle_off_axes[OF assms(1) acc, of i] by auto
  have ccw: "sample_angle accuracy False i = Fin A"
    unfolding A_def using acc by (rule sample_angle_counterclockwise)
  have cw: "sample_angle accuracy True (accuracy - i) = Fin (A - 2 * pi)"
    unfolding A_def using acc by (rule sample_angle_clockwise_mirror)
  have "hybridial_cos_value (A - 2 * pi) e = hybridial_cos_value A e"
    using range off by (intro hybridial_cos_periodic) simp_all
  then have c: "hybridial_squircular_cos (Fin (A - 2 * pi)) e = hybridial_squircular_cos (Fin A) e"
    by (simp add: hybridial_cos_value)
  have "hybridial_cos_value (5 * pi / 2 - A - 2 * pi) (Point (py e) (px e))
      = hybridial_cos_value (5 * pi / 2 - A) (Point (py e) (px e))"
    using range off by (intro hybridial_cos_periodic) simp_all
  moreover have "5 * pi / 2 - A - 2 * pi = pi / 2 - A" by simp
  moreover have "pi / 2 - (A - 2 * pi) = 5 * pi / 2 - A" by simp
  ultimately have s: "hybridial_squircular_sin (Fin (A - 2 * pi)) e = hybridial_squircular_sin (Fin A) e"
    by (simp add: hybridial_squircular_sin_def PI_def js_sub_def hybridial_cos_value)
  show ?thesis by (simp only: hybridial_point_def ccw cw Let_def c s)
qed

lemma angular_regime_reversed:
  assumes ang: "js_ge (px e) (Fin (3 / 2))" "js_ge (py e) (Fin (3 / 2))"
    and ne: "\<not> js_eq (px e) (py e)"
    and odd: "odd accuracy"
  shows "\<exists>ps. path_vertices accuracy (Pair e) sz center rotation True
           = Some (edge_midpoint sz center rotation 0 # ps)
       \<and> path_vertices accuracy (Pair e) sz center rotation False
           = Some (edge_midpoint sz center rotation 0 # rev ps)"
proof -
  let ?hp = "\<lambda>clockwise i. the (hybridial_point accuracy e sz center rotation clockwise i)"
  have acc: "accuracy \<noteq> 0" using odd by auto
  have those: "those (map (hybridial_point accuracy e sz center rotation clockwise)
        [1..accuracy - 1]) = Some (map (?hp clockwise) [1..accuracy - 1])" for clockwise
    using hybridial_point_returns[OF acc] by (intro those_map_the) blast
  have v: "path_vertices accuracy (Pair e) sz center rotation clockwise
      = Some (edge_midpoint sz center rotation 0 # map (?hp clockwise) [1..accuracy - 1])"
    for clockwise
  proof -
    have ne': "js_eq (px e) (py e) = False" using ne by simp
    show ?thesis
      by (cases clockwise)
        (simp_all add: path_vertices_def squirc_def hybridial_squircle_def Let_def ne' ang
          indices_up_upto those edge_midpoint_def midpoints_def eval_nat_numeral
          vertices_walk comp_def)
  qed
  have "map (?hp False) [1..accuracy - 1] = map (\<lambda>i. ?hp True (accuracy - i)) [1..accuracy - 1]"
    using odd by (intro map_cong refl arg_cong[where f = the] hybridial_point_mirror) simp_all
  then have "map (?hp False) [1..accuracy - 1] = rev (map (?hp True) [1..accuracy - 1])"
    by (simp add: rev_map_upto)
  then show ?thesis unfolding v by simp
qed

text \<open>
  Claim C6, as stated, fails for the circle and, in the angular regime, for an even
  accuracy. With size (2, 2), centre (0, 0) and no rotation, the clockwise circle goes
  from (0, -1) to (0, 1) and back, the counter-clockwise one from (-1, 0) to (1, 0) and
  back. With accuracy 2 and the exponents (20, 30) the clockwise path visits (0, -1) and
  (1, 1), the counter-clockwise one (0, -1) and (-1, 1): the only sample is on the
  vertical axis, where the Newton steps give \<open>NaN\<close> and the evaluator returns 1.
\<close>

theorem winding_changes_circle_and_even_angular:
  "squirc 101 (Scalar (Fin 2)) (Point (Fin 2) (Fin 2)) (Point (Fin 0) (Fin 0)) (Fin 0) True
     = Some [Lit ''M'', Num (Fin 0), Lit '' '', Num (Fin (- 1)),
             Lit ''A'', Num (Fin 1), Lit '' '', Num (Fin 1), Lit '' 0 0 '', Num (Fin 1), Lit '' '',
             Num (Fin 0), Lit '' '', Num (Fin 1), Lit '' '',
             Num (Fin 1), Lit '' '', Num (Fin 1), Lit '' 0 0 '', Num (Fin 1), Lit '' '',
             Num (Fin 0), Lit '' '', Num (Fin (- 1))]
   \<and> squirc 101 (Scalar (Fin 2)) (Point (Fin 2) (Fin 2)) (Point (Fin 0) (Fin 0)) (Fin 0) False
     = Some [Lit ''M'', Num (Fin (- 1)), Lit '' '', Num (Fin 0),
             Lit ''A'', Num (Fin 1), Lit '' '', Num (Fin 1), Lit '' 0 0 '', Num (Fin 0), Lit '' '',
             Num (Fin 1), Lit '' '', Num (Fin 0), Lit '' '',
             Num (Fin 1), Lit '' '', Num (Fin 1), Lit '' 0 0 '', Num (Fin 0), Lit '' '',
             Num (Fin (- 1)), Lit '' '', Num (Fin 0)]
   \<and> path_vertices 2 (Pair (Point (Fin 20) (Fin 30))) (Point (Fin 2) (Fin 2))
       (Point (Fin 0) (Fin 0)) (Fin 0) True
     = Some [Point (Fin 0) (Fin (- 1)), Point (Fin 1) (Fin 1)]
   \<and> path_vertices 2 (Pair (Point (Fin 20) (Fin 30))) (Point (Fin 2) (Fin 2))
       (Point (Fin 0) (Fin 0)) (Fin 0) False
     = Some [Point (Fin 0) (Fin (- 1)), Point (Fin (- 1)) (Fin 1)]"
proof (intro conjI)
  show "squirc 101 (Scalar (Fin 2)) (Point (Fin 2) (Fin 2)) (Point (Fin 0) (Fin 0)) (Fin 0) True
     = Some [Lit ''M'', Num (Fin 0), Lit '' '', Num (Fin (- 1)),
             Lit ''A'', Num (Fin 1), Lit '' '', Num (Fin 1), Lit '' 0 0 '', Num (Fin 1), Lit '' '',
             Num (Fin 0), Lit '' '', Num (Fin 1), Lit '' '',
             Num (Fin 1), Lit '' '', Num (Fin 1), Lit '' 0 0 '', Num (Fin 1), Lit '' '',
             Num (Fin 0), Lit '' '', Num (Fin (- 1))]"
    by (simp add: squirc_def squirc_simple_def js_eq_def Let_def midpoints_def
        toString_def rotate_point_def add_def js_sub_def)
  show "squirc 101 (Scalar (Fin 2)) (Point (Fin 2) (Fin 2)) (Point (Fin 0) (Fin 0)) (Fin 0) False
     = Some [Lit ''M'', Num (Fin (- 1)), Lit '' '', Num (Fin 0),
             Lit ''A'', Num (Fin 1), Lit '' '', Num (Fin 1), Lit '' 0 0 '', Num (Fin 0), Lit '' '',
             Num (Fin 1), Lit '' '', Num (Fin 0), Lit '' '',
             Num (Fin 1), Lit '' '', Num (Fin 1), Lit '' 0 0 '', Num (Fin 0), Lit '' '',
             Num (Fin (- 1)), Lit '' '', Num (Fin 0)]"
    by (simp add: squirc_def squirc_simple_def js_eq_def Let_def midpoints_def
        toString_def rotate_point_def add_def js_sub_def)
  have idx: "indices_up 2 1 = [1]" by (simp add: indices_up_upto upto_rec1)
  have pole: "newton_loop (Fin (pi / 2)) (Point (Fin 20) (Fin 30)) 0 (Fin 1) = NaN"
  proof -
    have "newton_loop (Fin (pi / 2)) (Point (Fin 20) (Fin 30)) 0 (Fin 1)
        = newton_loop (Fin (pi / 2)) (Point (Fin 20) (Fin 30)) 1 NaN"
      by (subst newton_loop.simps)
        (simp add: Let_def newton_f_def newton_df_def js_tan_def signed_inf_def js_sub_def)
    then show ?thesis by (simp add: newton_loop_NaN)
  qed
  have quarter: "hybridial_squircular_cos (Fin (pi / 2)) (Point (Fin 20) (Fin 30)) = Some (Fin 1)"
    by (rule trans[OF hybridial_squircular_cos.simps])
      (simp add: js_gt_def PI_def Let_def pole)
  have zero: "hybridial_squircular_cos (Fin 0) (Point (Fin 30) (Fin 20)) = Some (Fin 1)"
    by (rule trans[OF hybridial_squircular_cos.simps])
      (simp add: js_gt_def PI_def Let_def newton_loop_fixed)
  have half: "hybridial_squircular_cos (Fin pi) (Point (Fin 30) (Fin 20)) = Some (Fin (- 1))"
    by (rule trans[OF hybridial_squircular_cos.simps])
      (simp add: js_gt_def PI_def js_sub_def zero)
  have c_cw: "hybridial_squircular_cos (Fin (- (pi / 2))) (Point (Fin 20) (Fin 30)) = Some (Fin 1)"
    by (rule trans[OF hybridial_squircular_cos.simps]) (simp add: quarter)
  have c_ccw: "hybridial_squircular_cos (Fin (3 * pi / 2)) (Point (Fin 20) (Fin 30))
      = Some (Fin (- 1))"
    by (rule trans[OF hybridial_squircular_cos.simps])
      (simp add: js_gt_def PI_def js_sub_def c_cw)
  have s_ccw: "hybridial_squircular_cos (Fin (- pi)) (Point (Fin 30) (Fin 20)) = Some (Fin (- 1))"
    by (rule trans[OF hybridial_squircular_cos.simps]) (simp add: half)
  have a_cw: "sample_angle 2 True 1 = Fin (- (pi / 2))"
    by (simp add: sample_angle_def Let_def PI_def num_def js_sub_def)
  have a_ccw: "sample_angle 2 False 1 = Fin (3 * pi / 2)"
    by (simp add: sample_angle_def Let_def PI_def num_def)
  have p_cw: "hybridial_point 2 (Point (Fin 20) (Fin 30)) (Point (Fin 2) (Fin 2))
      (Point (Fin 0) (Fin 0)) (Fin 0) True 1 = Some (Point (Fin 1) (Fin 1))"
    by (simp add: hybridial_point_def a_cw Let_def c_cw hybridial_squircular_sin_def PI_def
        js_sub_def half rotate_point_def add_def)
  have p_ccw: "hybridial_point 2 (Point (Fin 20) (Fin 30)) (Point (Fin 2) (Fin 2))
      (Point (Fin 0) (Fin 0)) (Fin 0) False 1 = Some (Point (Fin (- 1)) (Fin 1))"
    by (simp add: hybridial_point_def a_ccw Let_def c_ccw hybridial_squircular_sin_def PI_def
        js_sub_def s_ccw rotate_point_def add_def)
  show "path_vertices 2 (Pair (Point (Fin 20) (Fin 30))) (Point (Fin 2) (Fin 2))
       (Point (Fin 0) (Fin 0)) (Fin 0) True
     = Some [Point (Fin 0) (Fin (- 1)), Point (Fin 1) (Fin 1)]"
    by (simp add: path_vertices_def squirc_def hybridial_squircle_def Let_def js_eq_def js_ge_def
        idx p_cw midpoints_def rotate_point_def add_def js_sub_def)
  show "path_vertices 2 (Pair (Point (Fin 20) (Fin 30))) (Point (Fin 2) (Fin 2))
       (Point (Fin 0) (Fin 0)) (Fin 0) False
     = Some [Point (Fin 0) (Fin (- 1)), Point (Fin (- 1)) (Fin 1)]"
    by (simp add: path_vertices_def squirc_def hybridial_squircle_def Let_def js_eq_def js_ge_def
        idx p_ccw midpoints_def rotate_point_def add_def js_sub_def)
qed

text \<open>
  Claim C6, amended: flipping \<open>clockwise\<close> gives the same vertices in reverse order
  \<^item> for the square (a non-finite exponent) and the diamond (exponent 1), where the
    four vertices of the counter-clockwise path are those of the clockwise path
    reversed;
  \<^item> for the sampled path of a finite exponent that is at least 0 and neither 1 nor 2,
  \<^item> for the quadrant walk of a \<open>Point\<close> exponent with finite, positive, unequal
    components, one of them below 1.5, and
  \<^item> for the angular regime of a \<open>Point\<close> exponent with unequal components of at least
    1.5 when the accuracy is odd,
  where both paths start at the top edge midpoint and the remaining vertices of the
  counter-clockwise path are those of the clockwise path reversed.
\<close>

theorem winding_reverses_vertices:
  "(\<not> isFinite e1 \<or> js_eq e1 (Fin 1) \<longrightarrow>
      (\<exists>vs. path_vertices accuracy (Scalar e1) sz center rotation True = Some vs
         \<and> path_vertices accuracy (Scalar e1) sz center rotation False = Some (rev vs)))
   \<and> (isFinite e2 \<and> js_ge e2 (Fin 0) \<and> \<not> js_eq e2 (Fin 1) \<and> \<not> js_eq e2 (Fin 2) \<longrightarrow>
      (\<exists>ps. path_vertices accuracy (Scalar e2) sz center rotation True
               = Some (edge_midpoint sz center rotation 0 # ps)
         \<and> path_vertices accuracy (Scalar e2) sz center rotation False
               = Some (edge_midpoint sz center rotation 0 # rev ps)))
   \<and> (isFinite (px e3) \<and> isFinite (py e3) \<and> js_gt (px e3) (Fin 0) \<and> js_gt (py e3) (Fin 0)
        \<and> \<not> js_eq (px e3) (py e3)
        \<and> \<not> (js_ge (px e3) (Fin (3 / 2)) \<and> js_ge (py e3) (Fin (3 / 2))) \<longrightarrow>
      (\<exists>ps. path_vertices accuracy (Pair e3) sz center rotation True
               = Some (edge_midpoint sz center rotation 0 # ps)
         \<and> path_vertices accuracy (Pair e3) sz center rotation False
               = Some (edge_midpoint sz center rotation 0 # rev ps)))
   \<and> (js_ge (px e4) (Fin (3 / 2)) \<and> js_ge (py e4) (Fin (3 / 2)) \<and> \<not> js_eq (px e4) (py e4)
        \<and> odd accuracy \<longrightarrow>
      (\<exists>ps. path_vertices accuracy (Pair e4) sz center rotation True
               = Some (edge_midpoint sz center rotation 0 # ps)
         \<and> path_vertices accuracy (Pair e4) sz center rotation False
               = Some (edge_midpoint sz center rotation 0 # rev ps)))"
proof (intro conjI impI)
  assume "\<not> isFinite e1 \<or> js_eq e1 (Fin 1)"
  then show "\<exists>vs. path_vertices accuracy (Scalar e1) sz center rotation True = Some vs
         \<and> path_vertices accuracy (Scalar e1) sz center rotation False = Some (rev vs)"
    using square_diamond_reversed[of e1 accuracy sz center rotation] by blast
next
  assume "isFinite e2 \<and> js_ge e2 (Fin 0) \<and> \<not> js_eq e2 (Fin 1) \<and> \<not> js_eq e2 (Fin 2)"
  then show "\<exists>ps. path_vertices accuracy (Scalar e2) sz center rotation True
               = Some (edge_midpoint sz center rotation 0 # ps)
         \<and> path_vertices accuracy (Scalar e2) sz center rotation False
               = Some (edge_midpoint sz center rotation 0 # rev ps)"
    by (intro isotropic_reversed) simp_all
next
  assume "isFinite (px e3) \<and> isFinite (py e3) \<and> js_gt (px e3) (Fin 0) \<and> js_gt (py e3) (Fin 0)
        \<and> \<not> js_eq (px e3) (py e3)
        \<and> \<not> (js_ge (px e3) (Fin (3 / 2)) \<and> js_ge (py e3) (Fin (3 / 2)))"
  then show "\<exists>ps. path_vertices accuracy (Pair e3) sz center rotation True
               = Some (edge_midpoint sz center rotation 0 # ps)
         \<and> path_vertices accuracy (Pair e3) sz center rotation False
               = Some (edge_midpoint sz center rotation 0 # rev ps)"
    by (intro quadrant_regime_reversed) simp_all
next
  assume "js_ge (px e4) (Fin (3 / 2)) \<and> js_ge (py e4) (Fin (3 / 2)) \<and> \<not> js_eq (px e4) (py e4)
        \<and> odd accuracy"
  then show "\<exists>ps. path_vertices accuracy (Pair e4) sz center rotation True
               = Some (edge_midpoint sz center rotation 0 # ps)
         \<and> path_vertices accuracy (Pair e4) sz center rotation False
               = Some (edge_midpoint sz center rotation 0 # rev ps)"
    by (intro angular_regime_reversed) simp_all
qed

theorem winding_reverses_vertices_witness:
  "(\<exists>vs. path_vertices 101 (Scalar PosInf) (Point (Fin 2) (Fin 2)) (Point (Fin 0) (Fin 0)) (Fin 0)
            True = Some vs
        \<and> path_vertices 101 (Scalar PosInf) (Point (Fin 2) (Fin 2)) (Point (Fin 0) (Fin 0)) (Fin 0)
            False = Some (rev vs))
   \<and> (\<exists>ps. path_vertices 101 (Scalar (Fin 3)) (Point (Fin 2) (Fin 2)) (Point (Fin 0) (Fin 0))
            (Fin 0) True = Some (Point (Fin 0) (Fin (- 1)) # ps)
        \<and> path_vertices 101 (Scalar (Fin 3)) (Point (Fin 2) (Fin 2)) (Point (Fin 0) (Fin 0))
            (Fin 0) False = Some (Point (Fin 0) (Fin (- 1)) # rev ps))
   \<and> (\<exists>ps. path_vertices 101 (Pair (Point (Fin 2) (Fin (1 / 2)))) (Point (Fin 2) (Fin 2))
            (Point (Fin 0) (Fin 0)) (Fin 0) True = Some (Point (Fin 0) (Fin (- 1)) # ps)
        \<and> path_vertices 101 (Pair (Point (Fin 2) (Fin (1 / 2)))) (Point (Fin 2) (Fin 2))
            (Point (Fin 0) (Fin 0)) (Fin 0) False = Some (Point (Fin 0) (Fin (- 1)) # rev ps))
   \<and> (\<exists>ps. path_vertices 101 (Pair (Point (Fin 2) (Fin 3))) (Point (Fin 2) (Fin 2))
            (Point (Fin 0) (Fin 0)) (Fin 0) True = Some (Point (Fin 0) (Fin (- 1)) # ps)
        \<and> path_vertices 101 (Pair (Point (Fin 2) (Fin 3))) (Point (Fin 2) (Fin 2))
            (Point (Fin 0) (Fin 0)) (Fin 0) False = Some (Point (Fin 0) (Fin (- 1)) # rev ps))"
  using winding_reverses_vertices [of PosInf 101 "Point (Fin 2) (Fin 2)" "Point (Fin 0) (Fin 0)"
      "Fin 0" "Fin 3" "Point (Fin 2) (Fin (1 / 2))" "Point (Fin 2) (Fin 3)"]
  by (simp add: js_eq_def js_ge_def js_gt_def edge_midpoint_unrotated)

section \<open>The fallback of the Newton solve\<close>


text \<open>
  The angles the generator passes to the anisotropic cosine, \<open>angle\<close> itself and
  \<open>Math.PI / 2 - angle\<close> for the sine, are at most \<open>5 * pi / 2\<close> in absolute value.
\<close>

lemma generator_angles_bounded:
  assumes "i \<in> set (indices_up accuracy 1)"
  shows "\<exists>a. sample_angle accuracy clockwise i = Fin a \<and> \<bar>a\<bar> \<le> 5 * pi / 2
           \<and> \<bar>pi / 2 - a\<bar> \<le> 5 * pi / 2"
proof -
  have i: "1 \<le> i" "i < accuracy" using assms by (simp_all add: indices_up_upto)
  then have acc: "accuracy \<noteq> 0" by simp
  define t where "t = of_int i * (2 * pi / of_int accuracy)"
  have t: "0 < t" "t < 2 * pi"
    using sample_angle_range[OF i] unfolding t_def by simp_all
  show ?thesis
  proof (cases clockwise)
    case True
    have "sample_angle accuracy True i = Fin (pi / 2 - t)"
      using acc unfolding t_def
      by (simp add: sample_angle_def Let_def PI_def num_def js_sub_def)
    moreover have "\<bar>pi / 2 - t\<bar> \<le> 5 * pi / 2" "\<bar>pi / 2 - (pi / 2 - t)\<bar> \<le> 5 * pi / 2"
      using t pi_gt_zero by linarith+
    ultimately show ?thesis using True by simp
  next
    case False
    have "sample_angle accuracy False i = Fin (pi / 2 + t)"
      unfolding t_def using acc by (rule sample_angle_counterclockwise)
    moreover have "\<bar>pi / 2 + t\<bar> \<le> 5 * pi / 2" "\<bar>pi / 2 - (pi / 2 + t)\<bar> \<le> 5 * pi / 2"
      using t pi_gt_zero by linarith+
    ultimately show ?thesis using False by simp
  qed
qed







end
